theory Spec2Isabelle
  imports Complex_Main "HOL-Library.Sublist" "HOL-Library.Multiset"
begin

section \<open>Strings\<close>

text \<open>
  Column names and chat questions are JavaScript strings. They are modelled as
  \<open>string\<close> (a list of 8-bit characters); \<open>toLowerCase\<close> folds the ASCII letters
  \<open>A\<close>..\<open>Z\<close> and \<open>trim\<close> strips the ASCII white space (tab, line feed, vertical tab,
  form feed, carriage return, space) from both ends. Case folding and white space
  outside ASCII are not modelled.
\<close>

definition to_lower_char :: "char \<Rightarrow> char" where
  "to_lower_char c =
     (let n = (of_char c :: nat) in if 65 \<le> n \<and> n \<le> 90 then char_of (n + 32) else c)"

definition toLowerCase :: "string \<Rightarrow> string" where
  "toLowerCase s = map to_lower_char s"

definition is_space :: "char \<Rightarrow> bool" where
  "is_space c = (let n = (of_char c :: nat) in (9 \<le> n \<and> n \<le> 13) \<or> n = 32)"

definition trim :: "string \<Rightarrow> string" where
  "trim s = rev (dropWhile is_space (rev (dropWhile is_space s)))"

text \<open>
  \<open>str_includes text w\<close> is \<open>text.includes(w)\<close>, and also the test of an unanchored regular
  expression that is a plain literal \<open>w\<close>: the literal occurs somewhere in the text.
\<close>

fun str_includes :: "string \<Rightarrow> string \<Rightarrow> bool" where
  "str_includes [] w = (w = [])"
| "str_includes (c # cs) w = (prefix w (c # cs) \<or> str_includes cs w)"

text \<open>
  The regular expression class \<open>\w\<close> (letters, digits, underscore) and the assertion
  \<open>\b\<close>: a position is a word boundary when exactly one of its two neighbours is a word
  character; outside the string there is no word character.
\<close>

definition is_word_char :: "char \<Rightarrow> bool" where
  "is_word_char c =
     (let n = (of_char c :: nat)
      in (48 \<le> n \<and> n \<le> 57) \<or> (65 \<le> n \<and> n \<le> 90) \<or> n = 95 \<or> (97 \<le> n \<and> n \<le> 122))"

fun is_word :: "char option \<Rightarrow> bool" where
  "is_word None = False"
| "is_word (Some c) = is_word_char c"

definition word_boundary :: "char option \<Rightarrow> char option \<Rightarrow> bool" where
  "word_boundary a b = (is_word a \<noteq> is_word b)"

fun first_char :: "string \<Rightarrow> char option" where
  "first_char [] = None"
| "first_char (c # cs) = Some c"

text \<open>
  \<open>bounded_here w prev s\<close>: the pattern \<open>\bw\b\<close> matches at the start of \<open>s\<close>, where
  \<open>prev\<close> is the character just before \<open>s\<close> in the whole text. \<open>str_includes_bounded\<close>
  tries every start position from left to right, as the regex engine does.
\<close>

definition bounded_here :: "string \<Rightarrow> char option \<Rightarrow> string \<Rightarrow> bool" where
  "bounded_here w prev s =
     (prefix w s \<and> word_boundary prev (first_char s) \<and>
      word_boundary (if w = [] then prev else Some (last w)) (first_char (drop (length w) s)))"

fun str_includes_bounded :: "char option \<Rightarrow> string \<Rightarrow> string \<Rightarrow> bool" where
  "str_includes_bounded prev [] w = bounded_here w prev []"
| "str_includes_bounded prev (c # cs) w = (bounded_here w prev (c # cs) \<or> str_includes_bounded (Some c) cs w)"

fun join :: "string \<Rightarrow> string list \<Rightarrow> string" where
  "join sep [] = []"
| "join sep [x] = x"
| "join sep (x # y # ys) = x @ sep @ join sep (y # ys)"

section \<open>Canonical schema (contracts.ts)\<close>

datatype CanonicalField =
    F_order_id | F_product | F_timestamp | F_quantity | F_price | F_revenue
  | F_channel | F_city | F_state | F_zip | F_source_file | F_original_column

definition CANONICAL_FIELDS :: "CanonicalField list" where
  "CANONICAL_FIELDS =
     [F_order_id, F_product, F_timestamp, F_quantity, F_price, F_revenue,
      F_channel, F_city, F_state, F_zip, F_source_file, F_original_column]"

text \<open>The string literal that each member of the union type is at run time.\<close>

fun field_name :: "CanonicalField \<Rightarrow> string" where
  "field_name F_order_id = ''order_id''"
| "field_name F_product = ''product''"
| "field_name F_timestamp = ''timestamp''"
| "field_name F_quantity = ''quantity''"
| "field_name F_price = ''price''"
| "field_name F_revenue = ''revenue''"
| "field_name F_channel = ''channel''"
| "field_name F_city = ''city''"
| "field_name F_state = ''state''"
| "field_name F_zip = ''zip''"
| "field_name F_source_file = ''source_file''"
| "field_name F_original_column = ''original_column''"

record ColumnInference =
  originalName :: string
  canonicalName :: "CanonicalField option"
  confidence :: real
  reason :: string

section \<open>Canonical field mapper (inferCanonical)\<close>

text \<open>
  The ten regular expressions of \<open>inferCanonical\<close>, each as the test it performs on the
  normalised name. An alternation of literals is a disjunction of \<open>str_includes\<close>;
  \<open>/^id$/\<close> holds of the string \<open>id\<close> only; \<open>units?\<close> is \<open>unit\<close> with an optional
  \<open>s\<close>.
\<close>

definition re_order_id :: "string \<Rightarrow> bool" where
  "re_order_id lower = ((str_includes lower ''order'' \<or> str_includes lower ''id'') \<or> lower = ''id'')"

definition re_product :: "string \<Rightarrow> bool" where
  "re_product lower = (str_includes lower ''product'' \<or> str_includes lower ''item'' \<or> str_includes lower ''sku'')"

definition re_timestamp :: "string \<Rightarrow> bool" where
  "re_timestamp lower = (str_includes lower ''date'' \<or> str_includes lower ''time'')"

definition re_quantity :: "string \<Rightarrow> bool" where
  "re_quantity lower =
     (str_includes lower ''qty'' \<or> str_includes lower ''quantity'' \<or>
      (str_includes lower ''units'' \<or> str_includes lower ''unit''))"

definition re_price :: "string \<Rightarrow> bool" where
  "re_price lower = (str_includes lower ''price'' \<or> str_includes lower ''amount'' \<or> str_includes lower ''cost'')"

definition re_revenue :: "string \<Rightarrow> bool" where
  "re_revenue lower = (str_includes lower ''revenue'' \<or> str_includes lower ''sales'' \<or> str_includes lower ''total'')"

definition re_channel :: "string \<Rightarrow> bool" where
  "re_channel lower = (str_includes lower ''channel'' \<or> str_includes lower ''market'' \<or> str_includes lower ''source'')"

definition re_city :: "string \<Rightarrow> bool" where
  "re_city lower = str_includes lower ''city''"

definition re_state :: "string \<Rightarrow> bool" where
  "re_state lower = (str_includes_bounded None lower ''state'' \<or> str_includes lower ''province'')"

definition re_zip :: "string \<Rightarrow> bool" where
  "re_zip lower = (str_includes_bounded None lower ''zip'' \<or> str_includes lower ''postal'')"

text \<open>
  The function keeps three mutable locals: \<open>canonical\<close>, \<open>confidence\<close> and the
  \<open>reason\<close> array. Each \<open>if (!canonical && /re/.test(lower)) { ... }\<close> block is one
  \<open>rule_step\<close> on that state.
\<close>

record infer_state =
  canonical :: "CanonicalField option"
  conf :: real
  reasons :: "string list"

definition score :: "bool \<Rightarrow> real \<Rightarrow> real" where
  "score cond bump = (if cond then bump else 0)"

definition rule_step :: "bool \<Rightarrow> CanonicalField \<Rightarrow> string \<Rightarrow> infer_state \<Rightarrow> infer_state" where
  "rule_step matched f why st =
     (if canonical st = None \<and> matched
      then \<lparr>canonical = Some f, conf = conf st + score True 0.4, reasons = reasons st @ [why]\<rparr>
      else st)"

definition inferCanonical :: "string \<Rightarrow> ColumnInference" where
  "inferCanonical name =
     (let lower = trim (toLowerCase name);
          st0 = \<lparr>canonical = None, conf = 0, reasons = []\<rparr>;
          st1 = rule_step (re_order_id lower) F_order_id ''matches order/id'' st0;
          st2 = rule_step (re_product lower) F_product ''matches product/item/sku'' st1;
          st3 = rule_step (re_timestamp lower) F_timestamp ''matches date/time'' st2;
          st4 = rule_step (re_quantity lower) F_quantity ''matches quantity'' st3;
          st5 = rule_step (re_price lower) F_price ''matches price/amount'' st4;
          st6 = rule_step (re_revenue lower) F_revenue ''matches revenue/total'' st5;
          st7 = rule_step (re_channel lower) F_channel ''matches channel/market/source'' st6;
          st8 = rule_step (re_city lower) F_city ''matches city'' st7;
          st9 = rule_step (re_state lower) F_state ''matches state/province'' st8;
          st10 = rule_step (re_zip lower) F_zip ''matches zip/postal'' st9
      in \<lparr>originalName = name,
          canonicalName = canonical st10,
          confidence = (if canonical st10 \<noteq> None then min 1 (0.5 + conf st10) else 0),
          reason = join ''; '' (reasons st10)\<rparr>)"

text \<open>
  The mapper as the specification words it: a fixed, ordered table of rules, one per
  canonical field, of which the first whose pattern matches wins.
\<close>

definition canonical_rules :: "(CanonicalField \<times> (string \<Rightarrow> bool)) list" where
  "canonical_rules =
     [(F_order_id, re_order_id), (F_product, re_product), (F_timestamp, re_timestamp),
      (F_quantity, re_quantity), (F_price, re_price), (F_revenue, re_revenue),
      (F_channel, re_channel), (F_city, re_city), (F_state, re_state), (F_zip, re_zip)]"

definition first_match :: "string \<Rightarrow> CanonicalField option" where
  "first_match lower = map_option fst (find (\<lambda>rule. snd rule lower) canonical_rules)"

section \<open>Values of the relational engine\<close>

text \<open>
  The SQL runs in an embedded relational engine that is not part of the repository. Its
  values are modelled as follows. A DOUBLE is a real number: rounding, infinities and NaN
  are not modelled. A TIMESTAMP is its calendar fields (year, month, day, and the time
  of day in microseconds), compared field by field. A cell of the raw table is NULL, a
  text, a number or a timestamp.
\<close>

record timestamp =
  ts_year :: int
  ts_month :: nat
  ts_day :: nat
  ts_time :: nat

definition ts_less :: "timestamp \<Rightarrow> timestamp \<Rightarrow> bool" where
  "ts_less a b =
     (ts_year a < ts_year b \<or> (ts_year a = ts_year b \<and>
       (ts_month a < ts_month b \<or> (ts_month a = ts_month b \<and>
         (ts_day a < ts_day b \<or> (ts_day a = ts_day b \<and> ts_time a < ts_time b))))))"

definition ts_le :: "timestamp \<Rightarrow> timestamp \<Rightarrow> bool" where
  "ts_le a b = (a = b \<or> ts_less a b)"

datatype date_part = Day | Month | Year

fun date_trunc :: "date_part \<Rightarrow> timestamp \<Rightarrow> timestamp" where
  "date_trunc Day t = t\<lparr>ts_time := 0\<rparr>"
| "date_trunc Month t = t\<lparr>ts_day := 1, ts_time := 0\<rparr>"
| "date_trunc Year t = t\<lparr>ts_month := 1, ts_day := 1, ts_time := 0\<rparr>"

text \<open>
  \<open>d - INTERVAL 1 MONTH\<close> and \<open>d - INTERVAL 1 YEAR\<close>. The source applies them to the
  first day of a month and of a year only, where the day of the month needs no clamping.
\<close>

definition minus_month :: "timestamp \<Rightarrow> timestamp" where
  "minus_month t =
     (if ts_month t \<le> 1 then t\<lparr>ts_year := ts_year t - 1, ts_month := 12\<rparr>
      else t\<lparr>ts_month := ts_month t - 1\<rparr>)"

definition minus_year :: "timestamp \<Rightarrow> timestamp" where
  "minus_year t = t\<lparr>ts_year := ts_year t - 1\<rparr>"

datatype cell = Null | Text string | Number real | Stamp timestamp

type_synonym raw_row = "string \<Rightarrow> cell"

text \<open>
  \<open>TRY_CAST\<close> never raises: a value that does not convert becomes NULL, and NULL stays
  NULL. Which texts convert is the engine's business, so the two conversions are
  parameters of the model.
\<close>

record engine =
  cast_double :: "cell \<Rightarrow> real option"
  cast_timestamp :: "cell \<Rightarrow> timestamp option"

definition try_cast_double :: "engine \<Rightarrow> cell \<Rightarrow> real option" where
  "try_cast_double eng v = (case v of Null \<Rightarrow> None | _ \<Rightarrow> cast_double eng v)"

definition try_cast_timestamp :: "engine \<Rightarrow> cell \<Rightarrow> timestamp option" where
  "try_cast_timestamp eng v = (case v of Null \<Rightarrow> None | _ \<Rightarrow> cast_timestamp eng v)"

text \<open>An engine that converts numbers and timestamps as they are, and no text.\<close>

definition typed_engine :: engine where
  "typed_engine =
     \<lparr>cast_double = (\<lambda>v. case v of Number x \<Rightarrow> Some x | _ \<Rightarrow> None),
      cast_timestamp = (\<lambda>v. case v of Stamp t \<Rightarrow> Some t | _ \<Rightarrow> None)\<rparr>"

subsection \<open>SQL aggregates and ordering\<close>

definition non_null :: "'a option list \<Rightarrow> 'a list" where
  "non_null vs = List.map_filter (\<lambda>v. v) vs"

definition sql_sum :: "real option list \<Rightarrow> real option" where
  "sql_sum vs = (if non_null vs = [] then None else Some (sum_list (non_null vs)))"

definition sql_avg :: "real option list \<Rightarrow> real option" where
  "sql_avg vs =
     (if non_null vs = [] then None
      else Some (sum_list (non_null vs) / real (length (non_null vs))))"

definition stddev_samp :: "real option list \<Rightarrow> real option" where
  "stddev_samp vs =
     (let xs = non_null vs; n = length xs
      in if n < 2 then None
         else let m = sum_list xs / real n
              in Some (sqrt (sum_list (map (\<lambda>x. (x - m)\<^sup>2) xs) / real (n - 1))))"

fun ts_min :: "timestamp list \<Rightarrow> timestamp option" where
  "ts_min [] = None"
| "ts_min (t # ts) = (case ts_min ts of None \<Rightarrow> Some t | Some m \<Rightarrow> Some (if ts_less m t then m else t))"

fun ts_max :: "timestamp list \<Rightarrow> timestamp option" where
  "ts_max [] = None"
| "ts_max (t # ts) = (case ts_max ts of None \<Rightarrow> Some t | Some m \<Rightarrow> Some (if ts_less t m then m else t))"

definition nullif :: "real option \<Rightarrow> real \<Rightarrow> real option" where
  "nullif a b = (if a = Some b then None else a)"

text \<open>
  \<open>GROUP BY\<close>: one group per distinct key; the engine fixes no order of the groups, the
  model lists them as \<open>remdups\<close> leaves the keys. \<open>ORDER BY\<close>: the engine leaves the
  order of rows with equal keys open; the model sorts by stable insertion. NULL sorts
  last in both directions, the engine's default.
\<close>

definition group_by :: "('r \<Rightarrow> 'k) \<Rightarrow> 'r list \<Rightarrow> ('k \<times> 'r list) list" where
  "group_by key rows = map (\<lambda>k. (k, filter (\<lambda>r. key r = k) rows)) (remdups (map key rows))"

fun insert_by :: "('a \<Rightarrow> 'a \<Rightarrow> bool) \<Rightarrow> 'a \<Rightarrow> 'a list \<Rightarrow> 'a list" where
  "insert_by le x [] = [x]"
| "insert_by le x (y # ys) = (if le x y then x # y # ys else y # insert_by le x ys)"

definition order_by :: "('a \<Rightarrow> 'a \<Rightarrow> bool) \<Rightarrow> 'a list \<Rightarrow> 'a list" where
  "order_by le xs = foldr (insert_by le) xs []"

fun desc_nulls_last :: "real option \<Rightarrow> real option \<Rightarrow> bool" where
  "desc_nulls_last a None = True"
| "desc_nulls_last None (Some y) = False"
| "desc_nulls_last (Some x) (Some y) = (y \<le> x)"

fun asc_nulls_last :: "real option \<Rightarrow> real option \<Rightarrow> bool" where
  "asc_nulls_last a None = True"
| "asc_nulls_last None (Some y) = False"
| "asc_nulls_last (Some x) (Some y) = (x \<le> y)"

section \<open>Cleaned view builder (materializeCleanedView)\<close>

text \<open>
  A \<open>ColumnMap\<close> is a JavaScript object from field names to raw column names. A value
  is truthy when it is present and not the empty string; \<open>a ?? b\<close> is \<open>a\<close> unless
  \<open>a\<close> is absent.
\<close>

type_synonym ColumnMap = "string \<rightharpoonup> string"

fun truthy :: "string option \<Rightarrow> bool" where
  "truthy None = False"
| "truthy (Some v) = (v \<noteq> [])"

fun nullish_or :: "string option \<Rightarrow> string option \<Rightarrow> string option" where
  "nullish_or None b = b"
| "nullish_or (Some v) b = Some v"

text \<open>
  The SELECT list that the function writes, as syntax. A text column is the literal
  \<open>NULL\<close> or a quoted identifier; \<open>qi\<close> doubles the quotes inside the name, so that
  the identifier denotes the column of exactly that name.
\<close>

datatype text_expr = TextNull | TextCol string

datatype ts_expr = TsNull | TryCastTimestamp text_expr

datatype num_expr = NumNull | NullDouble | TryCastDouble text_expr | Times num_expr num_expr

fun qi :: "string option \<Rightarrow> text_expr" where
  "qi None = TextNull"
| "qi (Some v) = (if v = [] then TextNull else TextCol v)"

record view_def =
  v_order_id :: text_expr
  v_product :: text_expr
  v_ts :: ts_expr
  v_quantity :: num_expr
  v_price :: num_expr
  v_channel :: text_expr
  v_city :: text_expr
  v_state :: text_expr
  v_zip :: text_expr
  v_revenue :: num_expr

definition cleaned_sql :: "ColumnMap \<Rightarrow> view_def" where
  "cleaned_sql mapping =
     (let dateCol = nullish_or (mapping ''timestamp'')
                      (nullish_or (mapping ''date'') (mapping ''original_column''));
          priceCol = mapping ''price'';
          qtyCol = mapping ''quantity'';
          revenueExpr =
            (if truthy (mapping ''revenue'') then TryCastDouble (qi (mapping ''revenue''))
             else if truthy priceCol \<and> truthy qtyCol
               then Times (TryCastDouble (qi priceCol)) (TryCastDouble (qi qtyCol))
               else NullDouble)
      in \<lparr>v_order_id = (if truthy (mapping ''order_id'') then qi (mapping ''order_id'') else TextNull),
          v_product = (if truthy (mapping ''product'') then qi (mapping ''product'') else TextNull),
          v_ts = (if truthy dateCol then TryCastTimestamp (qi dateCol) else TsNull),
          v_quantity = (if truthy qtyCol then TryCastDouble (qi qtyCol) else NumNull),
          v_price = (if truthy priceCol then TryCastDouble (qi priceCol) else NumNull),
          v_channel = (if truthy (mapping ''channel'') then qi (mapping ''channel'') else TextNull),
          v_city = (if truthy (mapping ''city'') then qi (mapping ''city'') else TextNull),
          v_state = (if truthy (mapping ''state'') then qi (mapping ''state'') else TextNull),
          v_zip = (if truthy (mapping ''zip'') then qi (mapping ''zip'') else TextNull),
          v_revenue = revenueExpr\<rparr>)"

text \<open>Evaluation of the SELECT list on one row of \<open>data\<close>.\<close>

fun eval_text :: "raw_row \<Rightarrow> text_expr \<Rightarrow> cell" where
  "eval_text r TextNull = Null"
| "eval_text r (TextCol c) = r c"

fun eval_ts :: "engine \<Rightarrow> raw_row \<Rightarrow> ts_expr \<Rightarrow> timestamp option" where
  "eval_ts eng r TsNull = None"
| "eval_ts eng r (TryCastTimestamp e) = try_cast_timestamp eng (eval_text r e)"

fun eval_num :: "engine \<Rightarrow> raw_row \<Rightarrow> num_expr \<Rightarrow> real option" where
  "eval_num eng r NumNull = None"
| "eval_num eng r NullDouble = None"
| "eval_num eng r (TryCastDouble e) = try_cast_double eng (eval_text r e)"
| "eval_num eng r (Times a b) =
     (case (eval_num eng r a, eval_num eng r b) of
        (Some x, Some y) \<Rightarrow> Some (x * y)
      | _ \<Rightarrow> None)"

text \<open>
  A row of the relation \<open>cleaned\<close>. The fields are the view's columns \<open>order_id\<close>,
  \<open>product\<close>, \<open>ts\<close>, \<open>quantity\<close>, \<open>price\<close>, \<open>channel\<close>, \<open>city\<close>, \<open>state\<close>,
  \<open>zip\<close>, \<open>revenue\<close>, written with the prefix \<open>c_\<close>.
\<close>

record cleaned_row =
  c_order_id :: cell
  c_product :: cell
  c_ts :: "timestamp option"
  c_quantity :: "real option"
  c_price :: "real option"
  c_channel :: cell
  c_city :: cell
  c_state :: cell
  c_zip :: cell
  c_revenue :: "real option"

definition select_row :: "engine \<Rightarrow> view_def \<Rightarrow> raw_row \<Rightarrow> cleaned_row" where
  "select_row eng v r =
     \<lparr>c_order_id = eval_text r (v_order_id v),
      c_product = eval_text r (v_product v),
      c_ts = eval_ts eng r (v_ts v),
      c_quantity = eval_num eng r (v_quantity v),
      c_price = eval_num eng r (v_price v),
      c_channel = eval_text r (v_channel v),
      c_city = eval_text r (v_city v),
      c_state = eval_text r (v_state v),
      c_zip = eval_text r (v_zip v),
      c_revenue = eval_num eng r (v_revenue v)\<rparr>"

text \<open>
  The connection: the table \<open>data\<close> (its column names and its rows) and the current
  definition of the view \<open>cleaned\<close>, if any. \<open>CREATE OR REPLACE VIEW\<close> replaces the
  definition; the engine rejects a definition that names a column \<open>data\<close> does not
  have, and the rejected call leaves the connection as it was. A query against
  \<open>cleaned\<close> evaluates the current definition on the current rows.
\<close>

datatype query_error = BinderError | CatalogError

record connection =
  data_columns :: "string list"
  data_rows :: "raw_row list"
  cleaned_view :: "view_def option"

fun text_columns :: "text_expr \<Rightarrow> string list" where
  "text_columns TextNull = []"
| "text_columns (TextCol c) = [c]"

fun ts_columns :: "ts_expr \<Rightarrow> string list" where
  "ts_columns TsNull = []"
| "ts_columns (TryCastTimestamp e) = text_columns e"

fun num_columns :: "num_expr \<Rightarrow> string list" where
  "num_columns NumNull = []"
| "num_columns NullDouble = []"
| "num_columns (TryCastDouble e) = text_columns e"
| "num_columns (Times a b) = num_columns a @ num_columns b"

definition view_columns :: "view_def \<Rightarrow> string list" where
  "view_columns v =
     text_columns (v_order_id v) @ text_columns (v_product v) @ ts_columns (v_ts v) @
     num_columns (v_quantity v) @ num_columns (v_price v) @ text_columns (v_channel v) @
     text_columns (v_city v) @ text_columns (v_state v) @ text_columns (v_zip v) @
     num_columns (v_revenue v)"

definition materializeCleanedView :: "connection \<Rightarrow> ColumnMap \<Rightarrow> query_error + connection" where
  "materializeCleanedView conn mapping =
     (let sql = cleaned_sql mapping
      in if list_all (\<lambda>c. c \<in> set (data_columns conn)) (view_columns sql)
         then Inr (conn\<lparr>cleaned_view := Some sql\<rparr>)
         else Inl BinderError)"

definition cleaned :: "engine \<Rightarrow> connection \<Rightarrow> query_error + cleaned_row list" where
  "cleaned eng conn =
     (case cleaned_view conn of
        None \<Rightarrow> Inl CatalogError
      | Some v \<Rightarrow> Inr (map (select_row eng v) (data_rows conn)))"

text \<open>\<open>buildColumnMap\<close> reads \<open>schema.columns\<close> only; a later column overwrites an earlier one.\<close>

definition buildColumnMap :: "ColumnInference list \<Rightarrow> ColumnMap" where
  "buildColumnMap columns =
     fold (\<lambda>col m. case canonicalName col of
                      None \<Rightarrow> m
                    | Some f \<Rightarrow> m(field_name f \<mapsto> originalName col))
       columns Map.empty"

section \<open>Aggregation engine\<close>

text \<open>
  Each aggregate is one or two fixed queries against \<open>cleaned\<close>. Its connection
  argument is represented by the rows the view yields at the time of the call
  (\<open>on_cleaned\<close> below runs an aggregate on a connection). The result rows carry the
  field names of the source with a prefix for the row type.
\<close>

definition on_cleaned :: "engine \<Rightarrow> connection \<Rightarrow> (cleaned_row list \<Rightarrow> 'a) \<Rightarrow> query_error + 'a" where
  "on_cleaned eng conn query =
     (case cleaned eng conn of Inl e \<Rightarrow> Inl e | Inr rel \<Rightarrow> Inr (query rel))"

text \<open>\<open>FROM cleaned WHERE ts IS NOT NULL\<close>: the rows with a timestamp, paired with it.\<close>

definition stamped :: "cleaned_row list \<Rightarrow> (timestamp \<times> cleaned_row) list" where
  "stamped rel = List.map_filter (\<lambda>r. map_option (\<lambda>t. (t, r)) (c_ts r)) rel"

text \<open>
  \<open>SELECT DATE_TRUNC(part, ts), SUM(revenue) FROM cleaned WHERE ts IS NOT NULL GROUP BY 1\<close>,
  the common table \<open>daily\<close> of the summary and of the anomalies when \<open>part\<close> is the day.
\<close>

definition revenue_by :: "date_part \<Rightarrow> cleaned_row list \<Rightarrow> (timestamp \<times> real option) list" where
  "revenue_by part rel =
     map (\<lambda>(k, rows). (k, sql_sum (map (\<lambda>(t, r). c_revenue r) rows)))
       (group_by (\<lambda>(t, r). date_trunc part t) (stamped rel))"

subsection \<open>getSummary\<close>

record SummaryResult =
  totalRevenue :: "real option"
  totalQuantity :: "real option"
  minDate :: "timestamp option"
  maxDate :: "timestamp option"
  momGrowthPct :: "real option"
  yoyGrowthPct :: "real option"
  hasDate :: bool

record growth_row =
  this_month :: "real option"
  prev_month :: "real option"
  this_year :: "real option"
  prev_year :: "real option"

text \<open>The second query of \<open>getSummary\<close>; \<open>today\<close> is \<open>CURRENT_DATE\<close>.\<close>

definition growth_query :: "timestamp \<Rightarrow> cleaned_row list \<Rightarrow> growth_row" where
  "growth_query today rel =
     (let daily = revenue_by Day rel;
          month0 = date_trunc Month today;
          year0 = date_trunc Year today
      in \<lparr>this_month = sql_sum (map (\<lambda>(d, rev). if ts_le month0 d then rev else Some 0) daily),
          prev_month = sql_sum (map (\<lambda>(d, rev).
              if ts_le (minus_month month0) d \<and> ts_less d month0 then rev else Some 0) daily),
          this_year = sql_sum (map (\<lambda>(d, rev). if ts_le year0 d then rev else Some 0) daily),
          prev_year = sql_sum (map (\<lambda>(d, rev).
              if ts_le (minus_year year0) d \<and> ts_less d year0 then rev else Some 0) daily)\<rparr>)"

text \<open>\<open>prev && prev !== 0 ? ((this ?? 0) - prev) / prev : null\<close>\<close>

definition growth_pct :: "real option \<Rightarrow> real option \<Rightarrow> real option" where
  "growth_pct this prev =
     (case prev of
        None \<Rightarrow> None
      | Some p \<Rightarrow> if p = 0 then None
                  else Some (((case this of None \<Rightarrow> 0 | Some t \<Rightarrow> t) - p) / p))"

text \<open>
  The first query has no \<open>GROUP BY\<close> and yields exactly one row, so \<open>row?.\<close> always
  finds it. \<open>hasDate = !!row?.min_ts\<close>: \<open>min_ts\<close> is declared \<open>string | null\<close>, and
  a timestamp counts as truthy. The growth query runs only when \<open>hasDate\<close> holds;
  \<open>null ?? undefined\<close> is the absent value \<open>None\<close>.
\<close>

definition getSummary :: "timestamp \<Rightarrow> cleaned_row list \<Rightarrow> SummaryResult" where
  "getSummary today rel =
     (let total_revenue = sql_sum (map c_revenue rel);
          total_qty = sql_sum (map c_quantity rel);
          min_ts = ts_min (non_null (map c_ts rel));
          max_ts = ts_max (non_null (map c_ts rel));
          has = (min_ts \<noteq> None);
          g = growth_query today rel
      in \<lparr>totalRevenue = total_revenue,
          totalQuantity = total_qty,
          minDate = min_ts,
          maxDate = max_ts,
          momGrowthPct = (if has then growth_pct (this_month g) (prev_month g) else None),
          yoyGrowthPct = (if has then growth_pct (this_year g) (prev_year g) else None),
          hasDate = has\<rparr>)"

subsection \<open>getTimeseries\<close>

record TimeseriesPoint =
  t_date :: timestamp
  t_revenue :: "real option"
  t_quantity :: "real option"

record Timeseries =
  daily :: "TimeseriesPoint list"
  monthly :: "TimeseriesPoint list"

definition series_by :: "date_part \<Rightarrow> cleaned_row list \<Rightarrow> TimeseriesPoint list" where
  "series_by part rel =
     order_by (\<lambda>a b. ts_le (t_date a) (t_date b))
       (map (\<lambda>(k, rows). \<lparr>t_date = k,
                           t_revenue = sql_sum (map (\<lambda>(t, r). c_revenue r) rows),
                           t_quantity = sql_sum (map (\<lambda>(t, r). c_quantity r) rows)\<rparr>)
          (group_by (\<lambda>(t, r). date_trunc part t) (stamped rel)))"

definition getTimeseries :: "cleaned_row list \<Rightarrow> Timeseries" where
  "getTimeseries rel = \<lparr>daily = series_by Day rel, monthly = series_by Month rel\<rparr>"

subsection \<open>getProducts, getGeo, getChannels\<close>

record ProductRow =
  p_product :: cell
  p_revenue :: "real option"
  p_quantity :: "real option"

record GeoRow =
  g_state :: cell
  g_city :: cell
  g_revenue :: "real option"
  g_quantity :: "real option"

record ChannelRow =
  ch_channel :: cell
  ch_revenue :: "real option"
  ch_quantity :: "real option"

datatype sort_order = Asc | Desc

text \<open>\<open>SELECT product, SUM(revenue), SUM(quantity) FROM rows GROUP BY 1\<close>, and its like.\<close>

definition product_groups :: "cleaned_row list \<Rightarrow> ProductRow list" where
  "product_groups rows =
     map (\<lambda>(k, rs). \<lparr>p_product = k, p_revenue = sql_sum (map c_revenue rs),
                      p_quantity = sql_sum (map c_quantity rs)\<rparr>)
       (group_by c_product rows)"

definition geo_groups :: "cleaned_row list \<Rightarrow> GeoRow list" where
  "geo_groups rows =
     map (\<lambda>(k, rs). \<lparr>g_state = fst k, g_city = snd k, g_revenue = sql_sum (map c_revenue rs),
                      g_quantity = sql_sum (map c_quantity rs)\<rparr>)
       (group_by (\<lambda>r. (c_state r, c_city r)) rows)"

definition channel_groups :: "cleaned_row list \<Rightarrow> ChannelRow list" where
  "channel_groups rows =
     map (\<lambda>(k, rs). \<lparr>ch_channel = k, ch_revenue = sql_sum (map c_revenue rs),
                      ch_quantity = sql_sum (map c_quantity rs)\<rparr>)
       (group_by c_channel rows)"

text \<open>
  The optional parameters \<open>limit = 10\<close>, \<open>offset = 0\<close>, \<open>order = "desc"\<close>: an argument
  that is left out is \<open>None\<close>. The direction is \<open>ASC\<close> for \<open>"asc"\<close> and \<open>DESC\<close>
  otherwise. Limit and offset are natural numbers.
\<close>

definition revenue_order :: "sort_order option \<Rightarrow> real option \<Rightarrow> real option \<Rightarrow> bool" where
  "revenue_order ord = (if ord = Some Asc then asc_nulls_last else desc_nulls_last)"

definition getProducts ::
  "cleaned_row list \<Rightarrow> nat option \<Rightarrow> nat option \<Rightarrow> sort_order option \<Rightarrow> ProductRow list" where
  "getProducts rel limit offset ord =
     (let lim = (case limit of None \<Rightarrow> 10 | Some n \<Rightarrow> n);
          off = (case offset of None \<Rightarrow> 0 | Some n \<Rightarrow> n);
          groups = product_groups (filter (\<lambda>r. c_product r \<noteq> Null) rel)
      in take lim (drop off
           (order_by (\<lambda>a b. revenue_order ord (p_revenue a) (p_revenue b)) groups)))"

definition getGeo :: "cleaned_row list \<Rightarrow> GeoRow list" where
  "getGeo rel =
     order_by (\<lambda>a b. desc_nulls_last (g_revenue a) (g_revenue b))
       (geo_groups (filter (\<lambda>r. c_state r \<noteq> Null \<or> c_city r \<noteq> Null) rel))"

definition getChannels :: "cleaned_row list \<Rightarrow> ChannelRow list" where
  "getChannels rel =
     order_by (\<lambda>a b. desc_nulls_last (ch_revenue a) (ch_revenue b))
       (channel_groups (filter (\<lambda>r. c_channel r \<noteq> Null) rel))"

subsection \<open>getAnomalies\<close>

record AnomalyRow =
  a_date :: timestamp
  a_revenue :: "real option"
  a_zscore :: "real option"

text \<open>\<open>(revenue - avg_rev) / NULLIF(sd_rev, 0)\<close>: NULL as soon as one operand is.\<close>

definition zscore :: "real option \<Rightarrow> real option \<Rightarrow> real option \<Rightarrow> real option" where
  "zscore revenue avg_rev sd_rev =
     (case (revenue, avg_rev, nullif sd_rev 0) of
        (Some x, Some m, Some s) \<Rightarrow> Some ((x - m) / s)
      | _ \<Rightarrow> None)"

text \<open>\<open>ABS(z) > 2\<close> in a WHERE clause: a NULL comparison rejects the row.\<close>

definition abs_exceeds :: "real option \<Rightarrow> real \<Rightarrow> bool" where
  "abs_exceeds z bound = (case z of None \<Rightarrow> False | Some v \<Rightarrow> bound < \<bar>v\<bar>)"

definition by_abs_zscore_desc :: "AnomalyRow \<Rightarrow> AnomalyRow \<Rightarrow> bool" where
  "by_abs_zscore_desc a b = desc_nulls_last (map_option abs (a_zscore a)) (map_option abs (a_zscore b))"

text \<open>\<open>SELECT d AS date, revenue, zscore FROM daily, stats\<close>: the cross join with the one row of statistics.\<close>

definition scored_days :: "cleaned_row list \<Rightarrow> AnomalyRow list" where
  "scored_days rel =
     (let daily = revenue_by Day rel;
          avg_rev = sql_avg (map snd daily);
          sd_rev = stddev_samp (map snd daily)
      in map (\<lambda>(d, revenue). \<lparr>a_date = d, a_revenue = revenue,
                               a_zscore = zscore revenue avg_rev sd_rev\<rparr>) daily)"

definition sd_rev_of :: "cleaned_row list \<Rightarrow> real option" where
  "sd_rev_of rel = stddev_samp (map snd (revenue_by Day rel))"

definition getAnomalies :: "cleaned_row list \<Rightarrow> AnomalyRow list" where
  "getAnomalies rel =
     order_by by_abs_zscore_desc
       (filter (\<lambda>a. sd_rev_of rel \<noteq> None \<and> abs_exceeds (a_zscore a) 2) (scored_days rel))"

section \<open>Dashboard aggregates (runAggregates)\<close>

record AggregateResult =
  summary :: "SummaryResult option"
  timeseries :: "Timeseries option"
  products :: "ProductRow list option"
  geo :: "GeoRow list option"
  channels :: "ChannelRow list option"
  anomalies :: "AnomalyRow list option"

text \<open>An awaited call that throws ends the sequence: the error is the result.\<close>

fun then_do :: "'e + 'a \<Rightarrow> ('a \<Rightarrow> 'e + 'b) \<Rightarrow> 'e + 'b" where
  "then_do (Inl e) f = Inl e"
| "then_do (Inr x) f = f x"

text \<open>
  The six aggregate calls of \<open>runAggregates\<close>, in its order, on one connection. The
  conversion of the dates to ISO strings for display is left out.
\<close>

definition aggregates :: "engine \<Rightarrow> timestamp \<Rightarrow> connection \<Rightarrow> query_error + AggregateResult" where
  "aggregates eng today conn =
     on_cleaned eng conn (\<lambda>rel.
       \<lparr>summary = Some (getSummary today rel),
        timeseries = Some (getTimeseries rel),
        products = Some (getProducts rel (Some 10) (Some 0) None),
        geo = Some (getGeo rel),
        channels = Some (getChannels rel),
        anomalies = Some (getAnomalies rel)\<rparr>)"

definition runAggregates ::
  "engine \<Rightarrow> timestamp \<Rightarrow> connection \<Rightarrow> ColumnInference list \<Rightarrow> query_error + AggregateResult" where
  "runAggregates eng today conn columns =
     then_do (materializeCleanedView conn (buildColumnMap columns)) (aggregates eng today)"

section \<open>Chat query router (routeChatQuestion)\<close>

datatype chat_table =
    ProductTable "ProductRow list"
  | ChannelTable "ChannelRow list"
  | GeoTable "GeoRow list"
  | AnomalyTable "AnomalyRow list"
  | PeriodTable "(timestamp \<times> real option) list"
  | SummaryTable "SummaryResult list"

record chat_answer =
  template :: string
  table :: chat_table

text \<open>
  The queries of the router differ from the dashboard's: no row is filtered on a NULL key,
  the anomalies keep every scored day, and each result is cut to its first five (or two)
  rows.
\<close>

definition routeChatQuestion :: "cleaned_row list \<Rightarrow> AggregateResult \<Rightarrow> string \<Rightarrow> chat_answer" where
  "routeChatQuestion rel agg q =
     (let text = toLowerCase q
      in if str_includes text ''top'' \<and> str_includes text ''product'' then
           \<lparr>template = ''top_products'',
            table = ProductTable (take 5
              (order_by (\<lambda>a b. desc_nulls_last (p_revenue a) (p_revenue b)) (product_groups rel)))\<rparr>
         else if str_includes text ''channel'' then
           \<lparr>template = ''channels'',
            table = ChannelTable (take 5
              (order_by (\<lambda>a b. desc_nulls_last (ch_revenue a) (ch_revenue b)) (channel_groups rel)))\<rparr>
         else if str_includes text ''state'' \<or> str_includes text ''city'' \<or> str_includes text ''geo'' then
           \<lparr>template = ''geo'',
            table = GeoTable (take 5
              (order_by (\<lambda>a b. desc_nulls_last (g_revenue a) (g_revenue b)) (geo_groups rel)))\<rparr>
         else if str_includes text ''anomaly'' \<or> str_includes text ''outlier'' then
           \<lparr>template = ''anomalies'',
            table = AnomalyTable (take 5
              (order_by by_abs_zscore_desc
                 (filter (\<lambda>a. sd_rev_of rel \<noteq> None) (scored_days rel))))\<rparr>
         else if str_includes text ''mom'' \<or> str_includes text ''month'' \<or> str_includes text ''growth'' then
           \<lparr>template = ''mom_growth'',
            table = PeriodTable (take 2
              (order_by (\<lambda>a b. ts_le (fst b) (fst a)) (revenue_by Month rel)))\<rparr>
         else if str_includes text ''yoy'' \<or> str_includes text ''year'' then
           \<lparr>template = ''yoy_growth'',
            table = PeriodTable (take 2
              (order_by (\<lambda>a b. ts_le (fst b) (fst a)) (revenue_by Year rel)))\<rparr>
         else
           \<lparr>template = ''summary'',
            table = SummaryTable (case summary agg of None \<Rightarrow> [] | Some s \<Rightarrow> [s])\<rparr>)"

text \<open>
  The router as the specification words it: an ordered list of rules on the lowercased
  question, the first match deciding, and the summary when none matches.
\<close>

definition chat_rules :: "(string \<times> (string \<Rightarrow> bool)) list" where
  "chat_rules =
     [(''top_products'', \<lambda>t. str_includes t ''top'' \<and> str_includes t ''product''),
      (''channels'', \<lambda>t. str_includes t ''channel''),
      (''geo'', \<lambda>t. str_includes t ''state'' \<or> str_includes t ''city'' \<or> str_includes t ''geo''),
      (''anomalies'', \<lambda>t. str_includes t ''anomaly'' \<or> str_includes t ''outlier''),
      (''mom_growth'', \<lambda>t. str_includes t ''mom'' \<or> str_includes t ''month'' \<or> str_includes t ''growth''),
      (''yoy_growth'', \<lambda>t. str_includes t ''yoy'' \<or> str_includes t ''year'')]"

definition classify :: "string \<Rightarrow> string" where
  "classify t = (case find (\<lambda>rule. snd rule t) chat_rules of None \<Rightarrow> ''summary'' | Some rule \<Rightarrow> fst rule)"

section \<open>The cleaned relation as the specification words it\<close>

text \<open>The raw column a field is mapped to: present and not the empty name.\<close>

definition mapped :: "ColumnMap \<Rightarrow> string \<Rightarrow> string option" where
  "mapped mapping f = (case mapping f of None \<Rightarrow> None | Some v \<Rightarrow> if v = [] then None else Some v)"

definition sql_times :: "real option \<Rightarrow> real option \<Rightarrow> real option" where
  "sql_times a b = (case (a, b) of (Some x, Some y) \<Rightarrow> Some (x * y) | _ \<Rightarrow> None)"

text \<open>
  Revenue: the cast of the mapped revenue column; otherwise price times quantity when
  both are mapped; otherwise NULL.
\<close>

definition spec_revenue :: "engine \<Rightarrow> ColumnMap \<Rightarrow> raw_row \<Rightarrow> real option" where
  "spec_revenue eng mapping r =
     (case mapped mapping ''revenue'' of
        Some col \<Rightarrow> try_cast_double eng (r col)
      | None \<Rightarrow>
          (case (mapped mapping ''price'', mapped mapping ''quantity'') of
             (Some p, Some q) \<Rightarrow> sql_times (try_cast_double eng (r p)) (try_cast_double eng (r q))
           | _ \<Rightarrow> None))"

text \<open>
  The date column: the entry \<open>timestamp\<close>, else \<open>date\<close>, else \<open>original_column\<close>, the
  first that is present; it counts as mapped when its name is not empty.
\<close>

definition date_column :: "ColumnMap \<Rightarrow> string option" where
  "date_column mapping =
     (case nullish_or (mapping ''timestamp'')
             (nullish_or (mapping ''date'') (mapping ''original_column'')) of
        None \<Rightarrow> None
      | Some v \<Rightarrow> if v = [] then None else Some v)"

definition spec_ts :: "engine \<Rightarrow> ColumnMap \<Rightarrow> raw_row \<Rightarrow> timestamp option" where
  "spec_ts eng mapping r =
     (case date_column mapping of None \<Rightarrow> None | Some col \<Rightarrow> try_cast_timestamp eng (r col))"

section \<open>The aggregates as the specification words them\<close>

text \<open>
  The sample mean and the sample standard deviation of a list of daily totals, the day a
  row falls on, and the revenue total of one day.
\<close>

definition mean :: "real list \<Rightarrow> real" where
  "mean xs = sum_list xs / real (length xs)"

definition sample_sd :: "real list \<Rightarrow> real" where
  "sample_sd xs = sqrt (sum_list (map (\<lambda>x. (x - mean xs)\<^sup>2) xs) / real (length xs - 1))"

definition day_of :: "cleaned_row \<Rightarrow> timestamp option" where
  "day_of r = map_option (date_trunc Day) (c_ts r)"

definition day_total :: "cleaned_row list \<Rightarrow> timestamp \<Rightarrow> real option" where
  "day_total rel d = sql_sum (map c_revenue (filter (\<lambda>r. day_of r = Some d) rel))"

text \<open>
  The revenue of one calendar month, as the specification words it: revenue summed per
  day, then the days of that month added up. \<open>m\<close> is the first day of the month.
\<close>

definition month_revenue :: "timestamp \<Rightarrow> cleaned_row list \<Rightarrow> real option" where
  "month_revenue m rel =
     sql_sum (map snd (filter (\<lambda>(d, v). date_trunc Month d = m) (revenue_by Day rel)))"

definition calendar_mom :: "timestamp \<Rightarrow> cleaned_row list \<Rightarrow> real option" where
  "calendar_mom today rel =
     growth_pct (month_revenue (date_trunc Month today) rel)
       (month_revenue (minus_month (date_trunc Month today)) rel)"

text \<open>
  A timestamp with a month from 1 to 12 and a day from 1 on; a sum that counts NULL as 0.
\<close>

definition valid_date :: "timestamp \<Rightarrow> bool" where
  "valid_date t = (1 \<le> ts_month t \<and> ts_month t \<le> 12 \<and> 1 \<le> ts_day t)"

definition or_zero :: "real option \<Rightarrow> real" where
  "or_zero v = (case v of None \<Rightarrow> 0 | Some x \<Rightarrow> x)"

section \<open>Example data\<close>

text \<open>A small table of sales, used to run the definitions on concrete input.\<close>

definition empty_shop :: connection where
  "empty_shop = \<lparr>data_columns = [''qty'', ''unit_price'', ''when''], data_rows = [], cleaned_view = None\<rparr>"

definition date :: "int \<Rightarrow> nat \<Rightarrow> nat \<Rightarrow> timestamp" where
  "date y m d = \<lparr>ts_year = y, ts_month = m, ts_day = d, ts_time = 0\<rparr>"

definition shop_row :: "real \<Rightarrow> real \<Rightarrow> timestamp \<Rightarrow> raw_row" where
  "shop_row q p t =
     (\<lambda>c. if c = ''qty'' then Number q else if c = ''unit_price'' then Number p
           else if c = ''when'' then Stamp t else Null)"

definition shop :: connection where
  "shop = \<lparr>data_columns = [''qty'', ''unit_price'', ''when''],
           data_rows = [shop_row 3 2 (date 2024 1 1)],
           cleaned_view = None\<rparr>"

definition shop_map :: ColumnMap where
  "shop_map = [''price'' \<mapsto> ''unit_price'', ''quantity'' \<mapsto> ''qty'']"

definition stray_map :: ColumnMap where
  "stray_map = [''original_column'' \<mapsto> ''when'']"

definition sale_on :: "timestamp \<Rightarrow> real \<Rightarrow> cleaned_row" where
  "sale_on t amount =
     \<lparr>c_order_id = Null, c_product = Null, c_ts = Some t, c_quantity = None, c_price = None,
      c_channel = Null, c_city = Null, c_state = Null, c_zip = Null, c_revenue = Some amount\<rparr>"

definition spike_week :: "cleaned_row list" where
  "spike_week =
     [sale_on (date 2024 1 1) 100, sale_on (date 2024 1 2) 100, sale_on (date 2024 1 3) 100,
      sale_on (date 2024 1 4) 100, sale_on (date 2024 1 5) 1000]"

definition quiet_days :: "cleaned_row list" where
  "quiet_days =
     [sale_on (date 2024 1 1) 0, sale_on (date 2024 1 2) 0, sale_on (date 2024 1 3) 0,
      sale_on (date 2024 1 4) 0, sale_on (date 2024 1 5) 0, sale_on (date 2024 1 6) 0,
      sale_on (date 2024 1 7) 0, sale_on (date 2024 1 8) 0, sale_on (date 2024 1 9) 9]"

definition sold :: "string \<Rightarrow> real option \<Rightarrow> real \<Rightarrow> cleaned_row" where
  "sold name amount n =
     \<lparr>c_order_id = Null, c_product = (if name = [] then Null else Text name), c_ts = None,
      c_quantity = Some n, c_price = None, c_channel = Null, c_city = Null, c_state = Null,
      c_zip = Null, c_revenue = amount\<rparr>"

definition shelf :: "cleaned_row list" where
  "shelf = [sold ''tea'' (Some 5) 1, sold ''mug'' (Some 20) 2, sold '''' (Some 9) 1,
            sold ''tea'' (Some 7) 3, sold ''pen'' None 4]"

definition preorders :: "cleaned_row list" where
  "preorders = [sale_on (date 2026 10 10) 100, sale_on (date 2027 1 5) 50]"

section \<open>Properties of the mapper\<close>

lemma str_includes_iff: "str_includes s w \<longleftrightarrow> (\<exists>pre post. s = pre @ w @ post)"
proof (induction s)
  case Nil
  then show ?case by auto
next
  case (Cons c cs)
  show ?case
  proof
    assume "str_includes (c # cs) w"
    then consider "prefix w (c # cs)" | "str_includes cs w" by auto
    then show "\<exists>pre post. c # cs = pre @ w @ post"
    proof cases
      case 1
      then obtain post where "c # cs = w @ post" by (auto simp: prefix_def)
      then have "c # cs = [] @ w @ post" by simp
      then show ?thesis by blast
    next
      case 2
      with Cons.IH obtain pre post where "cs = pre @ w @ post" by blast
      then have "c # cs = (c # pre) @ w @ post" by simp
      then show ?thesis by blast
    qed
  next
    assume "\<exists>pre post. c # cs = pre @ w @ post"
    then obtain pre post where eq: "c # cs = pre @ w @ post" by blast
    show "str_includes (c # cs) w"
    proof (cases pre)
      case Nil
      with eq have "prefix w (c # cs)" by (simp add: prefix_def)
      then show ?thesis by simp
    next
      case (Cons p ps)
      with eq have "cs = ps @ w @ post" by simp
      with Cons.IH have "str_includes cs w" by blast
      then show ?thesis by simp
    qed
  qed
qed

lemma canonical_rule_step:
  "canonical (rule_step matched f why st) =
     (if canonical st = None \<and> matched then Some f else canonical st)"
  by (simp add: rule_step_def)

text \<open>
  C1. For every raw column name, \<open>inferCanonical\<close> lowercases and trims the name and
  returns the field of the first rule, in the order order_id, product, timestamp,
  quantity, price, revenue, channel, city, state, zip, whose pattern matches the
  normalised name (first match wins); a name that matches several rules gets the field
  of the earliest one only.
\<close>

theorem inferCanonical_first_match:
  "canonicalName (inferCanonical name) = first_match (trim (toLowerCase name)) \<and>
   map fst canonical_rules =
     [F_order_id, F_product, F_timestamp, F_quantity, F_price, F_revenue,
      F_channel, F_city, F_state, F_zip]"
  by (simp add: inferCanonical_def first_match_def canonical_rules_def Let_def
      canonical_rule_step)

theorem inferCanonical_first_match_witness:
  "first_match (trim (toLowerCase ''Order_Date '')) = Some F_order_id \<and>
   re_timestamp (trim (toLowerCase ''Order_Date '')) \<and>
   canonicalName (inferCanonical ''Order_Date '') = Some F_order_id"
proof -
  have a: "first_match (trim (toLowerCase ''Order_Date '')) = Some F_order_id"
    by code_simp
  have b: "re_timestamp (trim (toLowerCase ''Order_Date ''))"
    by code_simp
  from a b inferCanonical_first_match [of "''Order_Date ''"] show ?thesis
    by simp
qed

text \<open>
  C10. Every column name whose lowercased, trimmed form contains \<open>id\<close> or \<open>order\<close>
  anywhere is assigned order_id with confidence 0.9, whatever later rules it also
  matches.
\<close>

theorem inferCanonical_id_or_order:
  assumes "str_includes (trim (toLowerCase name)) ''id'' \<or> str_includes (trim (toLowerCase name)) ''order''"
  shows "canonicalName (inferCanonical name) = Some F_order_id \<and>
         confidence (inferCanonical name) = 0.9"
proof -
  from assms have m: "re_order_id (trim (toLowerCase name))"
    by (auto simp: re_order_id_def)
  define st1 where
    "st1 = rule_step True F_order_id ''matches order/id''
             \<lparr>canonical = None, conf = 0, reasons = []\<rparr>"
  have c1: "canonical st1 = Some F_order_id" and f1: "conf st1 = 0.4"
    by (simp_all add: st1_def rule_step_def score_def)
  have keep: "rule_step b f why st = st" if "canonical st \<noteq> None" for b f why st
    using that by (auto simp: rule_step_def)
  have "inferCanonical name =
          \<lparr>originalName = name, canonicalName = canonical st1,
           confidence = (if canonical st1 \<noteq> None then min 1 (0.5 + conf st1) else 0),
           reason = join ''; '' (reasons st1)\<rparr>"
    using m c1 by (simp add: inferCanonical_def Let_def st1_def [symmetric] keep)
  with c1 f1 show ?thesis by simp
qed

theorem inferCanonical_id_or_order_witness:
  "canonicalName (inferCanonical ''paid'') = Some F_order_id \<and>
   confidence (inferCanonical ''paid'') = 0.9 \<and>
   canonicalName (inferCanonical ''Holiday'') = Some F_order_id \<and>
   canonicalName (inferCanonical ''product_id'') = Some F_order_id \<and>
   re_product (trim (toLowerCase ''product_id'')) \<and>
   canonicalName (inferCanonical ''valid_from'') = Some F_order_id \<and>
   canonicalName (inferCanonical '' Reorder Time '') = Some F_order_id \<and>
   re_timestamp (trim (toLowerCase '' Reorder Time ''))"
proof -
  have a: "str_includes (trim (toLowerCase ''paid'')) ''id''"
    and b: "str_includes (trim (toLowerCase ''Holiday'')) ''id''"
    and c: "str_includes (trim (toLowerCase ''product_id'')) ''id''"
    and d: "str_includes (trim (toLowerCase ''valid_from'')) ''id''"
    and e: "str_includes (trim (toLowerCase '' Reorder Time '')) ''order''"
    and f: "re_product (trim (toLowerCase ''product_id''))"
    and g: "re_timestamp (trim (toLowerCase '' Reorder Time ''))"
    by code_simp+
  show ?thesis
    using inferCanonical_id_or_order [of "''paid''"] inferCanonical_id_or_order [of "''Holiday''"]
      inferCanonical_id_or_order [of "''product_id''"] inferCanonical_id_or_order [of "''valid_from''"]
      inferCanonical_id_or_order [of "'' Reorder Time ''"] a b c d e f g
    by simp
qed

section \<open>Properties of the chat router\<close>

text \<open>
  C5. For every question, the template that \<open>routeChatQuestion\<close> returns is the one of
  the first rule, in the order top_products, channels, geo, anomalies, mom_growth,
  yoy_growth, whose substrings occur in the lowercased question, and summary when no rule
  matches. The question "what are my top products by channel" contains "channel" and
  is routed to top_products.
\<close>

theorem routeChatQuestion_classify:
  "template (routeChatQuestion rel agg q) = classify (toLowerCase q) \<and>
   map fst chat_rules =
     [''top_products'', ''channels'', ''geo'', ''anomalies'', ''mom_growth'', ''yoy_growth''] \<and>
   str_includes (toLowerCase ''what are my top products by channel'') ''channel'' \<and>
   template (routeChatQuestion rel agg ''what are my top products by channel'') = ''top_products''"
proof -
  have gen: "template (routeChatQuestion rel' agg' q') = classify (toLowerCase q')" for rel' agg' q'
    by (simp add: routeChatQuestion_def classify_def chat_rules_def Let_def)
  have names: "map fst chat_rules =
     [''top_products'', ''channels'', ''geo'', ''anomalies'', ''mom_growth'', ''yoy_growth'']"
    by (simp add: chat_rules_def)
  have ch: "str_includes (toLowerCase ''what are my top products by channel'') ''channel''"
    by code_simp
  have top: "classify (toLowerCase ''what are my top products by channel'') = ''top_products''"
    by code_simp
  from gen names ch top show ?thesis by simp
qed

theorem routeChatQuestion_classify_witness:
  "template (routeChatQuestion [] \<lparr>summary = None, timeseries = None, products = None,
      geo = None, channels = None, anomalies = None\<rparr> ''Revenue by Channel and State?'') = ''channels''"
proof -
  have "classify (toLowerCase ''Revenue by Channel and State?'') = ''channels''"
    by code_simp
  with routeChatQuestion_classify [of "[]" _ "''Revenue by Channel and State?''"] show ?thesis
    by simp
qed

section \<open>Properties of the cleaned view\<close>

lemma truthy_mapped: "truthy (mapping f) \<longleftrightarrow> mapped mapping f \<noteq> None"
  by (cases "mapping f") (auto simp: mapped_def)

lemma revenue_select_row:
  "c_revenue (select_row eng (cleaned_sql mapping) r) = spec_revenue eng mapping r"
  by (cases "mapping ''revenue''"; cases "mapping ''price''"; cases "mapping ''quantity''")
     (auto simp: select_row_def cleaned_sql_def spec_revenue_def mapped_def sql_times_def Let_def
           split: option.splits)

lemma materialize_Inr:
  "materializeCleanedView conn mapping = Inr conn' \<Longrightarrow>
     conn' = conn\<lparr>cleaned_view := Some (cleaned_sql mapping)\<rparr>"
  by (auto simp: materializeCleanedView_def Let_def split: if_splits)

lemma cleaned_after_materialize:
  "materializeCleanedView conn mapping = Inr conn' \<Longrightarrow>
     cleaned eng conn' = Inr (map (select_row eng (cleaned_sql mapping)) (data_rows conn))"
  by (auto simp: cleaned_def dest!: materialize_Inr)

text \<open>
  C2. For every mapping whose view the engine accepts and every row of the raw table,
  the revenue cell of the cleaned relation is the numeric cast of the mapped revenue
  column when revenue is mapped; otherwise the product of the casts of price and
  quantity when both are mapped; otherwise NULL.
\<close>

theorem cleaned_revenue:
  assumes "materializeCleanedView conn mapping = Inr conn'"
  shows "\<exists>rel. cleaned eng conn' = Inr rel \<and>
           map c_revenue rel = map (spec_revenue eng mapping) (data_rows conn)"
  using cleaned_after_materialize [OF assms, of eng] by (simp add: revenue_select_row)

lemma shop_materialize:
  "materializeCleanedView shop shop_map = Inr (shop\<lparr>cleaned_view := Some (cleaned_sql shop_map)\<rparr>)"
  by (simp add: materializeCleanedView_def shop_def shop_map_def cleaned_sql_def view_columns_def
      Let_def)

theorem cleaned_revenue_witness:
  "\<exists>rel. cleaned typed_engine (shop\<lparr>cleaned_view := Some (cleaned_sql shop_map)\<rparr>) = Inr rel \<and>
         map c_revenue rel = [Some 6]"
proof -
  have "spec_revenue typed_engine shop_map (shop_row 3 2 (date 2024 1 1)) = Some 6"
    by (simp add: spec_revenue_def shop_map_def mapped_def shop_row_def sql_times_def
        try_cast_double_def typed_engine_def)
  with cleaned_revenue [OF shop_materialize, of typed_engine] show ?thesis
    by (simp add: shop_def)
qed

lemma stray_materialize:
  "materializeCleanedView shop stray_map = Inr (shop\<lparr>cleaned_view := Some (cleaned_sql stray_map)\<rparr>)"
  by (simp add: materializeCleanedView_def shop_def stray_map_def cleaned_sql_def view_columns_def
      Let_def)

text \<open>
  With no \<open>timestamp\<close> entry in the mapping, the builder falls back to the entry
  \<open>original_column\<close>: the column \<open>ts\<close> of the view is then the cast of that column,
  not NULL.
\<close>

theorem ts_unmapped_counterexample:
  "stray_map ''timestamp'' = None \<and>
   materializeCleanedView shop stray_map = Inr (shop\<lparr>cleaned_view := Some (cleaned_sql stray_map)\<rparr>) \<and>
   cleaned typed_engine (shop\<lparr>cleaned_view := Some (cleaned_sql stray_map)\<rparr>) =
     Inr [\<lparr>c_order_id = Null, c_product = Null, c_ts = Some (date 2024 1 1), c_quantity = None,
           c_price = None, c_channel = Null, c_city = Null, c_state = Null, c_zip = Null,
           c_revenue = None\<rparr>]"
proof -
  have a: "stray_map ''timestamp'' = None" by (simp add: stray_map_def)
  have b: "cleaned typed_engine (shop\<lparr>cleaned_view := Some (cleaned_sql stray_map)\<rparr>) =
     Inr [\<lparr>c_order_id = Null, c_product = Null, c_ts = Some (date 2024 1 1), c_quantity = None,
           c_price = None, c_channel = Null, c_city = Null, c_state = Null, c_zip = Null,
           c_revenue = None\<rparr>]"
    by (simp add: cleaned_def shop_def select_row_def cleaned_sql_def stray_map_def Let_def
        shop_row_def try_cast_timestamp_def typed_engine_def)
  from a b stray_materialize show ?thesis by simp
qed

lemma ts_select_row:
  "c_ts (select_row eng (cleaned_sql mapping) r) = spec_ts eng mapping r"
proof (cases "date_column mapping")
  case None
  then have "\<not> truthy (nullish_or (mapping ''timestamp'')
                (nullish_or (mapping ''date'') (mapping ''original_column'')))"
    by (auto simp: date_column_def split: option.splits if_splits)
  with None show ?thesis
    by (simp add: select_row_def cleaned_sql_def spec_ts_def Let_def)
next
  case (Some col)
  then have "nullish_or (mapping ''timestamp'')
                (nullish_or (mapping ''date'') (mapping ''original_column'')) = Some col" "col \<noteq> []"
    by (auto simp: date_column_def split: option.splits if_splits)
  with Some show ?thesis
    by (simp add: select_row_def cleaned_sql_def spec_ts_def Let_def)
qed

lemma ts_expr_unmapped:
  "date_column mapping = None \<Longrightarrow> v_ts (cleaned_sql mapping) = TsNull"
  by (auto simp: date_column_def cleaned_sql_def Let_def split: option.splits if_splits)

lemma revenue_expr_unmapped:
  "mapped mapping ''revenue'' = None \<Longrightarrow>
   mapped mapping ''price'' = None \<or> mapped mapping ''quantity'' = None \<Longrightarrow>
   v_revenue (cleaned_sql mapping) = NullDouble"
  by (auto simp: cleaned_sql_def Let_def truthy_mapped)

lemma select_row_sel:
  "c_order_id (select_row eng v r) = eval_text r (v_order_id v)"
  "c_product (select_row eng v r) = eval_text r (v_product v)"
  "c_ts (select_row eng v r) = eval_ts eng r (v_ts v)"
  "c_quantity (select_row eng v r) = eval_num eng r (v_quantity v)"
  "c_price (select_row eng v r) = eval_num eng r (v_price v)"
  "c_channel (select_row eng v r) = eval_text r (v_channel v)"
  "c_city (select_row eng v r) = eval_text r (v_city v)"
  "c_state (select_row eng v r) = eval_text r (v_state v)"
  "c_zip (select_row eng v r) = eval_text r (v_zip v)"
  "c_revenue (select_row eng v r) = eval_num eng r (v_revenue v)"
  by (simp_all add: select_row_def)

lemma cleaned_sql_sel:
  "v_order_id (cleaned_sql mapping) =
     (if truthy (mapping ''order_id'') then qi (mapping ''order_id'') else TextNull)"
  "v_product (cleaned_sql mapping) =
     (if truthy (mapping ''product'') then qi (mapping ''product'') else TextNull)"
  "v_quantity (cleaned_sql mapping) =
     (if truthy (mapping ''quantity'') then TryCastDouble (qi (mapping ''quantity'')) else NumNull)"
  "v_price (cleaned_sql mapping) =
     (if truthy (mapping ''price'') then TryCastDouble (qi (mapping ''price'')) else NumNull)"
  "v_channel (cleaned_sql mapping) =
     (if truthy (mapping ''channel'') then qi (mapping ''channel'') else TextNull)"
  "v_city (cleaned_sql mapping) =
     (if truthy (mapping ''city'') then qi (mapping ''city'') else TextNull)"
  "v_state (cleaned_sql mapping) =
     (if truthy (mapping ''state'') then qi (mapping ''state'') else TextNull)"
  "v_zip (cleaned_sql mapping) =
     (if truthy (mapping ''zip'') then qi (mapping ''zip'') else TextNull)"
  by (simp_all add: cleaned_sql_def Let_def)

lemma unmapped_text_column:
  assumes "mapped mapping f = None"
    and "sel (cleaned_sql mapping) = (if truthy (mapping f) then qi (mapping f) else TextNull)"
  shows "sel (cleaned_sql mapping) = TextNull \<and>
         list_all (\<lambda>r. eval_text r (sel (cleaned_sql mapping)) = Null) rows"
  using assms by (simp add: truthy_mapped list_all_iff)

lemma unmapped_num_column:
  assumes "mapped mapping f = None"
    and "sel (cleaned_sql mapping) =
           (if truthy (mapping f) then TryCastDouble (qi (mapping f)) else NumNull)"
  shows "sel (cleaned_sql mapping) = NumNull \<and>
         list_all (\<lambda>r. eval_num eng r (sel (cleaned_sql mapping)) = None) rows"
  using assms by (simp add: truthy_mapped list_all_iff)

text \<open>
  C3, as the builder does it. For every mapping whose view the engine accepts: \<open>ts\<close>
  is the safe cast of the date column, which is the first present entry among
  \<open>timestamp\<close>, \<open>date\<close> and \<open>original_column\<close> (a value that does not convert is
  NULL), and is the literal NULL, hence NULL in every row, when there is no such entry or
  its name is empty; each of order_id, product, quantity, price, channel, city, state and
  zip that is not mapped is the literal NULL, hence NULL in every row; and revenue is the
  literal NULL when it is not mapped and price and quantity are not both mapped.
\<close>

theorem cleaned_unmapped_null:
  assumes "materializeCleanedView conn mapping = Inr conn'"
  shows "\<exists>rel. cleaned eng conn' = Inr rel \<and>
     map c_ts rel = map (spec_ts eng mapping) (data_rows conn) \<and>
     (date_column mapping = None \<longrightarrow>
        v_ts (cleaned_sql mapping) = TsNull \<and> list_all (\<lambda>row. c_ts row = None) rel) \<and>
     (mapped mapping ''order_id'' = None \<longrightarrow>
        v_order_id (cleaned_sql mapping) = TextNull \<and> list_all (\<lambda>row. c_order_id row = Null) rel) \<and>
     (mapped mapping ''product'' = None \<longrightarrow>
        v_product (cleaned_sql mapping) = TextNull \<and> list_all (\<lambda>row. c_product row = Null) rel) \<and>
     (mapped mapping ''quantity'' = None \<longrightarrow>
        v_quantity (cleaned_sql mapping) = NumNull \<and> list_all (\<lambda>row. c_quantity row = None) rel) \<and>
     (mapped mapping ''price'' = None \<longrightarrow>
        v_price (cleaned_sql mapping) = NumNull \<and> list_all (\<lambda>row. c_price row = None) rel) \<and>
     (mapped mapping ''channel'' = None \<longrightarrow>
        v_channel (cleaned_sql mapping) = TextNull \<and> list_all (\<lambda>row. c_channel row = Null) rel) \<and>
     (mapped mapping ''city'' = None \<longrightarrow>
        v_city (cleaned_sql mapping) = TextNull \<and> list_all (\<lambda>row. c_city row = Null) rel) \<and>
     (mapped mapping ''state'' = None \<longrightarrow>
        v_state (cleaned_sql mapping) = TextNull \<and> list_all (\<lambda>row. c_state row = Null) rel) \<and>
     (mapped mapping ''zip'' = None \<longrightarrow>
        v_zip (cleaned_sql mapping) = TextNull \<and> list_all (\<lambda>row. c_zip row = Null) rel) \<and>
     (mapped mapping ''revenue'' = None \<and>
        (mapped mapping ''price'' = None \<or> mapped mapping ''quantity'' = None) \<longrightarrow>
        v_revenue (cleaned_sql mapping) = NullDouble \<and> list_all (\<lambda>row. c_revenue row = None) rel)"
proof -
  let ?v = "cleaned_sql mapping"
  let ?rel = "map (select_row eng ?v) (data_rows conn)"
  have rel: "cleaned eng conn' = Inr ?rel"
    by (rule cleaned_after_materialize [OF assms])
  have ts: "map c_ts ?rel = map (spec_ts eng mapping) (data_rows conn)"
    by (simp add: ts_select_row)
  have tsn: "date_column mapping = None \<longrightarrow> v_ts ?v = TsNull \<and> list_all (\<lambda>row. c_ts row = None) ?rel"
    by (simp add: ts_expr_unmapped list_all_iff select_row_sel)
  have oid: "mapped mapping ''order_id'' = None \<longrightarrow>
        v_order_id ?v = TextNull \<and> list_all (\<lambda>row. c_order_id row = Null) ?rel"
    using unmapped_text_column [of mapping "''order_id''" v_order_id "data_rows conn"]
    by (simp add: cleaned_sql_sel list_all_iff select_row_sel)
  have prod: "mapped mapping ''product'' = None \<longrightarrow>
        v_product ?v = TextNull \<and> list_all (\<lambda>row. c_product row = Null) ?rel"
    using unmapped_text_column [of mapping "''product''" v_product "data_rows conn"]
    by (simp add: cleaned_sql_sel list_all_iff select_row_sel)
  have qty: "mapped mapping ''quantity'' = None \<longrightarrow>
        v_quantity ?v = NumNull \<and> list_all (\<lambda>row. c_quantity row = None) ?rel"
    using unmapped_num_column [of mapping "''quantity''" v_quantity eng "data_rows conn"]
    by (simp add: cleaned_sql_sel list_all_iff select_row_sel)
  have price: "mapped mapping ''price'' = None \<longrightarrow>
        v_price ?v = NumNull \<and> list_all (\<lambda>row. c_price row = None) ?rel"
    using unmapped_num_column [of mapping "''price''" v_price eng "data_rows conn"]
    by (simp add: cleaned_sql_sel list_all_iff select_row_sel)
  have chan: "mapped mapping ''channel'' = None \<longrightarrow>
        v_channel ?v = TextNull \<and> list_all (\<lambda>row. c_channel row = Null) ?rel"
    using unmapped_text_column [of mapping "''channel''" v_channel "data_rows conn"]
    by (simp add: cleaned_sql_sel list_all_iff select_row_sel)
  have city: "mapped mapping ''city'' = None \<longrightarrow>
        v_city ?v = TextNull \<and> list_all (\<lambda>row. c_city row = Null) ?rel"
    using unmapped_text_column [of mapping "''city''" v_city "data_rows conn"]
    by (simp add: cleaned_sql_sel list_all_iff select_row_sel)
  have state: "mapped mapping ''state'' = None \<longrightarrow>
        v_state ?v = TextNull \<and> list_all (\<lambda>row. c_state row = Null) ?rel"
    using unmapped_text_column [of mapping "''state''" v_state "data_rows conn"]
    by (simp add: cleaned_sql_sel list_all_iff select_row_sel)
  have zip: "mapped mapping ''zip'' = None \<longrightarrow>
        v_zip ?v = TextNull \<and> list_all (\<lambda>row. c_zip row = Null) ?rel"
    using unmapped_text_column [of mapping "''zip''" v_zip "data_rows conn"]
    by (simp add: cleaned_sql_sel list_all_iff select_row_sel)
  have rev: "mapped mapping ''revenue'' = None \<and>
        (mapped mapping ''price'' = None \<or> mapped mapping ''quantity'' = None) \<longrightarrow>
        v_revenue ?v = NullDouble \<and> list_all (\<lambda>row. c_revenue row = None) ?rel"
    using revenue_expr_unmapped [of mapping]
    by (auto simp: list_all_iff select_row_sel)
  show ?thesis
    by (rule exI [of _ ?rel]) (intro conjI rel ts tsn oid prod qty price chan city state zip rev)
qed

theorem cleaned_unmapped_null_witness:
  "\<exists>rel. cleaned typed_engine (shop\<lparr>cleaned_view := Some (cleaned_sql stray_map)\<rparr>) = Inr rel \<and>
     map c_ts rel = [Some (date 2024 1 1)] \<and>
     list_all (\<lambda>row. c_order_id row = Null) rel \<and>
     list_all (\<lambda>row. c_quantity row = None) rel \<and>
     list_all (\<lambda>row. c_revenue row = None) rel \<and>
     v_zip (cleaned_sql stray_map) = TextNull"
proof -
  have m: "mapped stray_map ''order_id'' = None" "mapped stray_map ''quantity'' = None"
    "mapped stray_map ''revenue'' = None" "mapped stray_map ''price'' = None"
    "mapped stray_map ''zip'' = None"
    by (simp_all add: mapped_def stray_map_def)
  have t: "spec_ts typed_engine stray_map (shop_row 3 2 (date 2024 1 1)) = Some (date 2024 1 1)"
    by (simp add: spec_ts_def date_column_def stray_map_def shop_row_def try_cast_timestamp_def
        typed_engine_def)
  have d: "data_rows shop = [shop_row 3 2 (date 2024 1 1)]"
    by (simp add: shop_def)
  from cleaned_unmapped_null [OF stray_materialize, of typed_engine] m t d show ?thesis
    by auto
qed

section \<open>Summary of an empty relation\<close>

text \<open>
  C7. On a cleaned relation of zero rows, \<open>getSummary\<close> returns a result, with
  \<open>totalRevenue\<close> absent, \<open>hasDate\<close> false and both growth percentages null; run on
  a connection whose view yields no row, it returns that result and no error.
\<close>

theorem getSummary_empty:
  "getSummary today [] =
     \<lparr>totalRevenue = None, totalQuantity = None, minDate = None, maxDate = None,
      momGrowthPct = None, yoyGrowthPct = None, hasDate = False\<rparr> \<and>
   (cleaned eng conn = Inr [] \<longrightarrow>
      on_cleaned eng conn (getSummary today) =
        Inr \<lparr>totalRevenue = None, totalQuantity = None, minDate = None, maxDate = None,
             momGrowthPct = None, yoyGrowthPct = None, hasDate = False\<rparr>)"
proof -
  have "getSummary today [] =
     \<lparr>totalRevenue = None, totalQuantity = None, minDate = None, maxDate = None,
      momGrowthPct = None, yoyGrowthPct = None, hasDate = False\<rparr>"
    by (simp add: getSummary_def Let_def sql_sum_def non_null_def List.map_filter_simps)
  then show ?thesis by (simp add: on_cleaned_def)
qed

theorem getSummary_empty_witness:
  "cleaned typed_engine (empty_shop\<lparr>cleaned_view := Some (cleaned_sql shop_map)\<rparr>) = Inr [] \<and>
   on_cleaned typed_engine (empty_shop\<lparr>cleaned_view := Some (cleaned_sql shop_map)\<rparr>)
       (getSummary (date 2026 11 3)) =
     Inr \<lparr>totalRevenue = None, totalQuantity = None, minDate = None, maxDate = None,
          momGrowthPct = None, yoyGrowthPct = None, hasDate = False\<rparr>"
proof -
  have "cleaned typed_engine (empty_shop\<lparr>cleaned_view := Some (cleaned_sql shop_map)\<rparr>) = Inr []"
    by (simp add: cleaned_def empty_shop_def)
  with getSummary_empty [of "date 2026 11 3" typed_engine
      "empty_shop\<lparr>cleaned_view := Some (cleaned_sql shop_map)\<rparr>"]
  show ?thesis by simp
qed

section \<open>Replacing the view twice\<close>

lemma materialize_again:
  assumes "materializeCleanedView conn mapping = Inr conn'"
  shows "materializeCleanedView conn' mapping = Inr conn'"
proof -
  from assms have ok: "list_all (\<lambda>c. c \<in> set (data_columns conn)) (view_columns (cleaned_sql mapping))"
    by (auto simp: materializeCleanedView_def Let_def split: if_splits)
  from assms have c: "conn' = conn\<lparr>cleaned_view := Some (cleaned_sql mapping)\<rparr>"
    by (rule materialize_Inr)
  from ok show ?thesis
    unfolding c by (simp add: materializeCleanedView_def Let_def)
qed

text \<open>
  C9. Calling \<open>materializeCleanedView\<close> twice with the same mapping leaves the
  connection as one call does, and the aggregates (summary, time series, products, geo,
  channels, anomalies) computed after two calls equal those computed after one.
\<close>

theorem materialize_twice:
  "then_do (materializeCleanedView conn mapping) (\<lambda>c. materializeCleanedView c mapping) =
     materializeCleanedView conn mapping \<and>
   then_do (then_do (materializeCleanedView conn mapping) (\<lambda>c. materializeCleanedView c mapping))
       (aggregates eng today) =
     then_do (materializeCleanedView conn mapping) (aggregates eng today)"
proof (cases "materializeCleanedView conn mapping")
  case (Inl e)
  then show ?thesis by simp
next
  case (Inr conn')
  then show ?thesis by (simp add: materialize_again)
qed

theorem materialize_twice_witness:
  "materializeCleanedView shop shop_map = Inr (shop\<lparr>cleaned_view := Some (cleaned_sql shop_map)\<rparr>) \<and>
   then_do (then_do (materializeCleanedView shop shop_map) (\<lambda>c. materializeCleanedView c shop_map))
       (aggregates typed_engine (date 2026 11 3)) =
     aggregates typed_engine (date 2026 11 3) (shop\<lparr>cleaned_view := Some (cleaned_sql shop_map)\<rparr>)"
  using materialize_twice [of shop shop_map typed_engine "date 2026 11 3"] shop_materialize
  by simp

section \<open>Ordering and grouping\<close>

lemma mset_insert_by: "mset (insert_by le x xs) = add_mset x (mset xs)"
  by (induction xs) auto

lemma mset_order_by: "mset (order_by le xs) = mset xs"
  by (induction xs) (auto simp: order_by_def mset_insert_by)

lemma set_order_by: "set (order_by le xs) = set xs"
  by (metis mset_order_by set_mset_mset)

lemma distinct_map_order_by: "distinct (map f (order_by le xs)) = distinct (map f xs)"
proof -
  have "mset (map f (order_by le xs)) = mset (map f xs)"
    by (simp add: mset_order_by)
  then show ?thesis by (rule mset_eq_imp_distinct_iff)
qed

lemma sorted_insert_by:
  assumes total: "\<And>a b. le a b \<or> le b a"
    and trans: "\<And>a b c. le a b \<Longrightarrow> le b c \<Longrightarrow> le a c"
    and "sorted_wrt le xs"
  shows "sorted_wrt le (insert_by le x xs)"
  using assms(3)
proof (induction xs)
  case Nil
  then show ?case by simp
next
  case (Cons y ys)
  show ?case
  proof (cases "le x y")
    case True
    with Cons.prems trans show ?thesis by auto
  next
    case False
    with total have "le y x" by blast
    moreover have "set (insert_by le x ys) = insert x (set ys)"
      by (metis mset_insert_by set_mset_add_mset_insert set_mset_mset)
    ultimately show ?thesis using False Cons by auto
  qed
qed

lemma sorted_order_by:
  assumes "\<And>a b. le a b \<or> le b a" and "\<And>a b c. le a b \<Longrightarrow> le b c \<Longrightarrow> le a c"
  shows "sorted_wrt le (order_by le xs)"
proof (induction xs)
  case Nil
  then show ?case by (simp add: order_by_def)
next
  case (Cons x xs)
  have "order_by le (x # xs) = insert_by le x (order_by le xs)"
    by (simp add: order_by_def)
  with Cons sorted_insert_by [of le "order_by le xs" x] assms show ?case
    by metis
qed

lemma desc_nulls_last_total: "desc_nulls_last a b \<or> desc_nulls_last b a"
  by (cases a; cases b) auto

lemma desc_nulls_last_trans: "desc_nulls_last a b \<Longrightarrow> desc_nulls_last b c \<Longrightarrow> desc_nulls_last a c"
  by (cases a; cases b; cases c) auto

lemma asc_nulls_last_total: "asc_nulls_last a b \<or> asc_nulls_last b a"
  by (cases a; cases b) auto

lemma asc_nulls_last_trans: "asc_nulls_last a b \<Longrightarrow> asc_nulls_last b c \<Longrightarrow> asc_nulls_last a c"
  by (cases a; cases b; cases c) auto

lemma revenue_order_total: "revenue_order ord a b \<or> revenue_order ord b a"
  using desc_nulls_last_total asc_nulls_last_total by (simp add: revenue_order_def)

lemma revenue_order_trans:
  assumes "revenue_order ord a b" and "revenue_order ord b c"
  shows "revenue_order ord a c"
proof (cases "ord = Some Asc")
  case True
  with assms asc_nulls_last_trans [of a b c] show ?thesis by (simp add: revenue_order_def)
next
  case False
  with assms desc_nulls_last_trans [of a b c] show ?thesis by (simp add: revenue_order_def)
qed

section \<open>Properties of getProducts\<close>

lemma product_groups_keys: "map p_product (product_groups rows) = remdups (map c_product rows)"
  by (simp add: product_groups_def group_by_def comp_def)

lemma product_groups_member:
  assumes "g \<in> set (product_groups rows)"
  shows "p_revenue g = sql_sum (map c_revenue (filter (\<lambda>r. c_product r = p_product g) rows)) \<and>
         p_quantity g = sql_sum (map c_quantity (filter (\<lambda>r. c_product r = p_product g) rows))"
  using assms by (auto simp: product_groups_def group_by_def)

lemma filter_key_not_null:
  "k \<noteq> Null \<Longrightarrow> filter (\<lambda>r. c_product r = k) (filter (\<lambda>r. c_product r \<noteq> Null) rel) =
     filter (\<lambda>r. c_product r = k) rel"
  by (induction rel) auto

text \<open>
  C8. For every cleaned relation and every limit, offset and direction, \<open>getProducts\<close>
  returns the rows from \<open>offset\<close> on, at most \<open>limit\<close> of them (10 when no limit is
  given, offset 0 when none is given), of a list of groups that is ordered by revenue,
  ascending for the direction "asc" and descending otherwise, that has exactly one group
  for each product other than NULL, and in which each group carries the sums of revenue
  and of quantity over the rows of its product.
\<close>

theorem getProducts_groups:
  "\<exists>groups.
     getProducts rel limit offset ord =
       take (case limit of None \<Rightarrow> 10 | Some n \<Rightarrow> n)
         (drop (case offset of None \<Rightarrow> 0 | Some n \<Rightarrow> n) groups) \<and>
     sorted_wrt (\<lambda>a b. if ord = Some Asc then asc_nulls_last (p_revenue a) (p_revenue b)
                        else desc_nulls_last (p_revenue a) (p_revenue b)) groups \<and>
     distinct (map p_product groups) \<and>
     set (map p_product groups) = c_product ` set rel - {Null} \<and>
     (\<forall>g \<in> set groups.
        p_revenue g = sql_sum (map c_revenue (filter (\<lambda>r. c_product r = p_product g) rel)) \<and>
        p_quantity g = sql_sum (map c_quantity (filter (\<lambda>r. c_product r = p_product g) rel)))"
proof -
  let ?rows = "filter (\<lambda>r. c_product r \<noteq> Null) rel"
  let ?le = "\<lambda>a b. revenue_order ord (p_revenue a) (p_revenue b)"
  let ?groups = "order_by ?le (product_groups ?rows)"
  have res: "getProducts rel limit offset ord =
       take (case limit of None \<Rightarrow> 10 | Some n \<Rightarrow> n)
         (drop (case offset of None \<Rightarrow> 0 | Some n \<Rightarrow> n) ?groups)"
    by (simp add: getProducts_def Let_def)
  have "sorted_wrt ?le ?groups"
    by (rule sorted_order_by) (use revenue_order_total revenue_order_trans in blast)+
  then have sorted: "sorted_wrt (\<lambda>a b. if ord = Some Asc then asc_nulls_last (p_revenue a) (p_revenue b)
                        else desc_nulls_last (p_revenue a) (p_revenue b)) ?groups"
    by (simp add: revenue_order_def if_distrib [of "\<lambda>f. f _ _"] cong: if_cong)
  have dist: "distinct (map p_product ?groups)"
    by (simp add: distinct_map_order_by product_groups_keys)
  have "set (map p_product ?groups) = set (map p_product (product_groups ?rows))"
    by (simp add: set_order_by)
  then have keys: "set (map p_product ?groups) = c_product ` set rel - {Null}"
    by (auto simp: product_groups_keys)
  have sums: "\<forall>g \<in> set ?groups.
        p_revenue g = sql_sum (map c_revenue (filter (\<lambda>r. c_product r = p_product g) rel)) \<and>
        p_quantity g = sql_sum (map c_quantity (filter (\<lambda>r. c_product r = p_product g) rel))"
  proof
    fix g assume "g \<in> set ?groups"
    then have g: "g \<in> set (product_groups ?rows)" by (simp add: set_order_by)
    then have "p_product g \<in> set (map p_product (product_groups ?rows))" by simp
    then have "p_product g \<noteq> Null" by (auto simp: product_groups_keys)
    with product_groups_member [OF g] filter_key_not_null [of "p_product g" rel]
    show "p_revenue g = sql_sum (map c_revenue (filter (\<lambda>r. c_product r = p_product g) rel)) \<and>
        p_quantity g = sql_sum (map c_quantity (filter (\<lambda>r. c_product r = p_product g) rel))"
      by simp
  qed
  show ?thesis
    by (rule exI [of _ ?groups]) (intro conjI res sorted dist keys sums)
qed

lemma shelf_products:
  "getProducts shelf None None None =
     [\<lparr>p_product = Text ''mug'', p_revenue = Some 20, p_quantity = Some 2\<rparr>,
      \<lparr>p_product = Text ''tea'', p_revenue = Some 12, p_quantity = Some 4\<rparr>,
      \<lparr>p_product = Text ''pen'', p_revenue = None, p_quantity = Some 4\<rparr>]"
  "getProducts shelf (Some 1) (Some 1) (Some Asc) =
     [\<lparr>p_product = Text ''mug'', p_revenue = Some 20, p_quantity = Some 2\<rparr>]"
  by (simp_all add: getProducts_def product_groups_def group_by_def shelf_def sold_def
      order_by_def revenue_order_def sql_sum_def non_null_def List.map_filter_simps)

lemma shelf_keys:
  "c_product ` set shelf - {Null} = {Text ''tea'', Text ''mug'', Text ''pen''}"
  by (auto simp: shelf_def sold_def)

theorem getProducts_groups_witness:
  "getProducts shelf None None None =
     [\<lparr>p_product = Text ''mug'', p_revenue = Some 20, p_quantity = Some 2\<rparr>,
      \<lparr>p_product = Text ''tea'', p_revenue = Some 12, p_quantity = Some 4\<rparr>,
      \<lparr>p_product = Text ''pen'', p_revenue = None, p_quantity = Some 4\<rparr>] \<and>
   getProducts shelf (Some 1) (Some 1) (Some Asc) =
     [\<lparr>p_product = Text ''mug'', p_revenue = Some 20, p_quantity = Some 2\<rparr>] \<and>
   sorted_wrt (\<lambda>a b. desc_nulls_last (p_revenue a) (p_revenue b)) (getProducts shelf None None None) \<and>
   set (map p_product (getProducts shelf None None None)) = {Text ''tea'', Text ''mug'', Text ''pen''}"
proof -
  from getProducts_groups [of shelf None None None] obtain groups
    where out: "getProducts shelf None None None = take 10 (drop 0 groups)"
      and sorted: "sorted_wrt (\<lambda>a b. desc_nulls_last (p_revenue a) (p_revenue b)) groups"
      and dist: "distinct (map p_product groups)"
      and keys: "set (map p_product groups) = c_product ` set shelf - {Null}"
    by auto
  from dist have "length (map p_product groups) = card (set (map p_product groups))"
    by (rule distinct_card [symmetric])
  also have "\<dots> = 3"
    unfolding keys shelf_keys by simp
  finally have "length groups = 3" by simp
  with out have "getProducts shelf None None None = groups" by simp
  with sorted keys shelf_keys shelf_products show ?thesis by simp
qed

section \<open>Properties of getAnomalies\<close>

lemma stamped_Cons:
  "stamped (r # rel) = (case c_ts r of None \<Rightarrow> stamped rel | Some t \<Rightarrow> (t, r) # stamped rel)"
  by (simp add: stamped_def List.map_filter_simps split: option.splits)

lemma stamped_Nil: "stamped [] = []"
  by (simp add: stamped_def List.map_filter_simps)

lemma stamped_keys:
  "(\<lambda>(t, r). date_trunc part t) ` set (stamped rel) =
     {k. \<exists>r \<in> set rel. map_option (date_trunc part) (c_ts r) = Some k}"
  by (induction rel)
     (auto simp: stamped_Nil stamped_Cons simp del: date_trunc.simps split: option.splits)

lemma stamped_group:
  "map (\<lambda>(t, r). f r)
       (filter (\<lambda>p. (case p of (t, r) \<Rightarrow> date_trunc part t) = k) (stamped rel)) =
     map f (filter (\<lambda>r. map_option (date_trunc part) (c_ts r) = Some k) rel)"
  by (induction rel)
     (auto simp: stamped_Nil stamped_Cons simp del: date_trunc.simps split: option.splits)

lemma revenue_by_keys: "map fst (revenue_by part rel) =
    remdups (map (\<lambda>(t, r). date_trunc part t) (stamped rel))"
  by (simp add: revenue_by_def group_by_def comp_def)

lemma revenue_by_member:
  "(k, v) \<in> set (revenue_by part rel) \<longleftrightarrow>
     (\<exists>r \<in> set rel. map_option (date_trunc part) (c_ts r) = Some k) \<and>
     v = sql_sum (map c_revenue
           (filter (\<lambda>r. map_option (date_trunc part) (c_ts r) = Some k) rel))"
proof -
  have "(k, v) \<in> set (revenue_by part rel) \<longleftrightarrow>
        k \<in> (\<lambda>(t, r). date_trunc part t) ` set (stamped rel) \<and>
        v = sql_sum (map (\<lambda>(t, r). c_revenue r)
              (filter (\<lambda>p. (case p of (t, r) \<Rightarrow> date_trunc part t) = k) (stamped rel)))"
    unfolding revenue_by_def group_by_def
    by (auto simp del: date_trunc.simps)
  then show ?thesis
    unfolding stamped_keys stamped_group by simp
qed

lemma daily_member:
  "(d, v) \<in> set (revenue_by Day rel) \<longleftrightarrow> Some d \<in> day_of ` set rel \<and> v = day_total rel d"
proof -
  have "(\<exists>r \<in> set rel. day_of r = Some d) \<longleftrightarrow> Some d \<in> day_of ` set rel"
    by force
  then show ?thesis
    unfolding revenue_by_member day_total_def day_of_def by (simp only:)
qed

lemma sql_avg_mean: "sql_avg vs = (if non_null vs = [] then None else Some (mean (non_null vs)))"
  by (simp add: sql_avg_def mean_def)

lemma stddev_samp_sd:
  "stddev_samp vs = (if length (non_null vs) < 2 then None else Some (sample_sd (non_null vs)))"
  by (simp add: stddev_samp_def sample_sd_def mean_def Let_def)

lemma zscore_defined:
  assumes "2 \<le> length (non_null vs)"
  shows "zscore v (sql_avg vs) (stddev_samp vs) =
     (case v of
        None \<Rightarrow> None
      | Some x \<Rightarrow> if sample_sd (non_null vs) = 0 then None
                  else Some ((x - mean (non_null vs)) / sample_sd (non_null vs)))"
proof -
  from assms have "non_null vs \<noteq> []" by auto
  with assms show ?thesis
    by (simp add: zscore_def sql_avg_mean stddev_samp_sd nullif_def split: option.splits)
qed

lemma set_getAnomalies:
  "set (getAnomalies rel) =
     {a \<in> set (scored_days rel). sd_rev_of rel \<noteq> None \<and> abs_exceeds (a_zscore a) 2}"
  by (simp add: getAnomalies_def set_order_by)

lemma getAnomalies_few:
  assumes "length (non_null (map snd (revenue_by Day rel))) < 2"
  shows "getAnomalies rel = []"
proof -
  from assms have "sd_rev_of rel = None"
    by (simp add: sd_rev_of_def stddev_samp_sd)
  then show ?thesis by (simp add: getAnomalies_def order_by_def)
qed

lemma getAnomalies_member:
  "a \<in> set (getAnomalies rel) \<longleftrightarrow>
     (\<exists>d x. (d, Some x) \<in> set (revenue_by Day rel) \<and>
        2 \<le> length (non_null (map snd (revenue_by Day rel))) \<and>
        sample_sd (non_null (map snd (revenue_by Day rel))) \<noteq> 0 \<and>
        2 < \<bar>(x - mean (non_null (map snd (revenue_by Day rel)))) /
              sample_sd (non_null (map snd (revenue_by Day rel)))\<bar> \<and>
        a = \<lparr>a_date = d, a_revenue = Some x,
             a_zscore = Some ((x - mean (non_null (map snd (revenue_by Day rel)))) /
                               sample_sd (non_null (map snd (revenue_by Day rel))))\<rparr>)"
  (is "?L \<longleftrightarrow> ?R")
proof (cases "2 \<le> length (non_null (map snd (revenue_by Day rel)))")
  case False
  then have "getAnomalies rel = []" by (simp add: getAnomalies_few)
  with False show ?thesis by auto
next
  case True
  let ?daily = "revenue_by Day rel"
  let ?vs = "map snd ?daily"
  have sd: "sd_rev_of rel \<noteq> None"
    using True by (simp add: sd_rev_of_def stddev_samp_sd)
  have scored: "scored_days rel =
      map (\<lambda>(d, revenue). \<lparr>a_date = d, a_revenue = revenue,
             a_zscore = (case revenue of None \<Rightarrow> None
                | Some x \<Rightarrow> if sample_sd (non_null ?vs) = 0 then None
                            else Some ((x - mean (non_null ?vs)) / sample_sd (non_null ?vs)))\<rparr>) ?daily"
    by (simp add: scored_days_def Let_def zscore_defined [OF True])
  show ?thesis
  proof
    assume ?L
    then have a: "a \<in> set (scored_days rel)" and ex: "abs_exceeds (a_zscore a) 2"
      by (simp_all add: set_getAnomalies)
    from a obtain d v where dv: "(d, v) \<in> set ?daily"
      and aeq: "a = \<lparr>a_date = d, a_revenue = v,
             a_zscore = (case v of None \<Rightarrow> None
                | Some x \<Rightarrow> if sample_sd (non_null ?vs) = 0 then None
                            else Some ((x - mean (non_null ?vs)) / sample_sd (non_null ?vs)))\<rparr>"
      unfolding scored by auto
    from ex aeq obtain x where v: "v = Some x" and nz: "sample_sd (non_null ?vs) \<noteq> 0"
      and big: "2 < \<bar>(x - mean (non_null ?vs)) / sample_sd (non_null ?vs)\<bar>"
      by (cases v) (auto simp: abs_exceeds_def split: if_splits)
    from dv v nz big aeq True show ?R by auto
  next
    assume ?R
    then obtain d x where dv: "(d, Some x) \<in> set ?daily"
      and nz: "sample_sd (non_null ?vs) \<noteq> 0"
      and big: "2 < \<bar>(x - mean (non_null ?vs)) / sample_sd (non_null ?vs)\<bar>"
      and aeq: "a = \<lparr>a_date = d, a_revenue = Some x,
             a_zscore = Some ((x - mean (non_null ?vs)) / sample_sd (non_null ?vs))\<rparr>"
      by blast
    from dv nz aeq have "a \<in> set (scored_days rel)"
      unfolding scored by force
    moreover from big aeq have "abs_exceeds (a_zscore a) 2"
      by (simp add: abs_exceeds_def)
    ultimately show ?L using sd by (simp add: set_getAnomalies)
  qed
qed

lemma by_abs_zscore_desc_total: "by_abs_zscore_desc a b \<or> by_abs_zscore_desc b a"
  by (simp add: by_abs_zscore_desc_def desc_nulls_last_total)

lemma by_abs_zscore_desc_trans:
  "by_abs_zscore_desc a b \<Longrightarrow> by_abs_zscore_desc b c \<Longrightarrow> by_abs_zscore_desc a c"
  unfolding by_abs_zscore_desc_def by (rule desc_nulls_last_trans)

lemma sorted_getAnomalies: "sorted_wrt by_abs_zscore_desc (getAnomalies rel)"
  unfolding getAnomalies_def
  by (rule sorted_order_by) (use by_abs_zscore_desc_total by_abs_zscore_desc_trans in blast)+

lemma distinct_daily: "distinct (map fst (revenue_by part rel))"
  by (simp add: revenue_by_keys)

lemma scored_days_dates: "map a_date (scored_days rel) = map fst (revenue_by Day rel)"
  by (simp add: scored_days_def Let_def comp_def case_prod_beta)

lemma distinct_getAnomalies: "distinct (map a_date (getAnomalies rel))"
  unfolding getAnomalies_def distinct_map_order_by
  by (rule distinct_map_filter) (simp add: scored_days_dates distinct_daily)

text \<open>
  C4, without its example. For every cleaned relation: the daily totals are the revenue
  sums of the rows with a timestamp, one per day; \<open>getAnomalies\<close> returns exactly the
  days with a total whose z-score (total - mean) / stddev, taken with the sample mean and
  the sample standard deviation of the daily totals, is greater than 2 in absolute value,
  each day once, ordered by absolute z-score, largest first; and it returns the empty list
  when there are fewer than two days, fewer than two totals, or the deviation is zero.
\<close>

theorem getAnomalies_zscore:
  "(let daily = revenue_by Day rel;
        totals = non_null (map snd daily);
        out = getAnomalies rel
    in distinct (map fst daily) \<and>
       (\<forall>d v. (d, v) \<in> set daily \<longleftrightarrow> Some d \<in> day_of ` set rel \<and> v = day_total rel d) \<and>
       (\<forall>a. a \<in> set out \<longleftrightarrow>
          (\<exists>d x. (d, Some x) \<in> set daily \<and> 2 \<le> length totals \<and> sample_sd totals \<noteq> 0 \<and>
             2 < \<bar>(x - mean totals) / sample_sd totals\<bar> \<and>
             a = \<lparr>a_date = d, a_revenue = Some x,
                  a_zscore = Some ((x - mean totals) / sample_sd totals)\<rparr>)) \<and>
       distinct (map a_date out) \<and>
       sorted_wrt (\<lambda>a b. \<exists>x y. a_zscore a = Some x \<and> a_zscore b = Some y \<and> \<bar>y\<bar> \<le> \<bar>x\<bar>) out \<and>
       (length daily < 2 \<or> length totals < 2 \<or> sample_sd totals = 0 \<longrightarrow> out = []))"
proof -
  let ?daily = "revenue_by Day rel"
  let ?totals = "non_null (map snd ?daily)"
  let ?out = "getAnomalies rel"
  have len: "length ?totals \<le> length ?daily"
    by (simp add: non_null_def List.map_filter_def)
  have some: "\<exists>x. a_zscore a = Some x" if "a \<in> set ?out" for a
    using that unfolding getAnomalies_member by auto
  have "sorted_wrt (\<lambda>a b. \<exists>x y. a_zscore a = Some x \<and> a_zscore b = Some y \<and> \<bar>y\<bar> \<le> \<bar>x\<bar>) ?out"
  proof (rule sorted_wrt_mono_rel [OF _ sorted_getAnomalies])
    fix a b assume "a \<in> set ?out" "b \<in> set ?out" "by_abs_zscore_desc a b"
    with some [of a] some [of b]
    show "\<exists>x y. a_zscore a = Some x \<and> a_zscore b = Some y \<and> \<bar>y\<bar> \<le> \<bar>x\<bar>"
      by (auto simp: by_abs_zscore_desc_def)
  qed
  moreover have "?out = []"
    if "length ?daily < 2 \<or> length ?totals < 2 \<or> sample_sd ?totals = 0"
  proof -
    have "a \<notin> set ?out" for a
      using that len unfolding getAnomalies_member by auto
    then show ?thesis by (cases ?out) auto
  qed
  ultimately show ?thesis
    unfolding Let_def
    using distinct_daily [of Day rel] daily_member [of _ _ rel] getAnomalies_member [of _ rel]
      distinct_getAnomalies [of rel]
    by (intro conjI allI impI) blast+
qed

text \<open>
  The daily series 100, 100, 100, 100, 1000 has mean 280 and sample standard deviation
  \<open>sqrt 162000\<close>, above 360; the z-score of the last day is 720 over that, below 2. No
  day of the series is returned.
\<close>

lemma spike_week_daily:
  "revenue_by Day spike_week =
     [(date 2024 1 1, Some 100), (date 2024 1 2, Some 100), (date 2024 1 3, Some 100),
      (date 2024 1 4, Some 100), (date 2024 1 5, Some 1000)]"
  by (simp add: revenue_by_def group_by_def stamped_def List.map_filter_simps spike_week_def
      sale_on_def date_def sql_sum_def non_null_def)

lemma spike_week_stats:
  "mean [100, 100, 100, 100, 1000] = 280"
  "sample_sd [100, 100, 100, 100, 1000] = sqrt 162000"
  by (simp_all add: sample_sd_def mean_def)

lemma spike_week_bound: "360 \<le> sqrt 162000"
  by (rule real_le_rsqrt) simp

theorem spike_week_counterexample:
  "map snd (revenue_by Day spike_week) = [Some 100, Some 100, Some 100, Some 100, Some 1000] \<and>
   getAnomalies spike_week = []"
proof -
  have totals: "non_null (map snd (revenue_by Day spike_week)) = [100, 100, 100, 100, 1000]"
    by (simp add: spike_week_daily non_null_def List.map_filter_simps)
  have small: "\<not> 2 < \<bar>(x - 280) / sqrt 162000\<bar>" if "x = 100 \<or> x = 1000" for x :: real
  proof -
    from that have "\<bar>x - 280\<bar> \<le> 720" by auto
    also have "\<dots> = 2 * 360" by simp
    also have "\<dots> \<le> 2 * sqrt 162000" using spike_week_bound by simp
    finally have "\<bar>x - 280\<bar> / sqrt 162000 \<le> 2"
      by (simp add: pos_divide_le_eq)
    then show ?thesis by simp
  qed
  have "a \<notin> set (getAnomalies spike_week)" for a
    unfolding getAnomalies_member totals spike_week_stats
    using small by (auto simp: spike_week_daily)
  then have "getAnomalies spike_week = []"
    by (cases "getAnomalies spike_week") auto
  then show ?thesis by (simp add: spike_week_daily)
qed

lemma sqrt_nine: "sqrt 9 = 3"
  by (rule real_sqrt_unique) simp_all

lemma quiet_days_daily:
  "revenue_by Day quiet_days =
     [(date 2024 1 1, Some 0), (date 2024 1 2, Some 0), (date 2024 1 3, Some 0),
      (date 2024 1 4, Some 0), (date 2024 1 5, Some 0), (date 2024 1 6, Some 0),
      (date 2024 1 7, Some 0), (date 2024 1 8, Some 0), (date 2024 1 9, Some 9)]"
  by (simp add: revenue_by_def group_by_def stamped_def List.map_filter_simps quiet_days_def
      sale_on_def date_def sql_sum_def non_null_def)

lemma quiet_days_stats:
  "mean [0, 0, 0, 0, 0, 0, 0, 0, 9] = 1"
  "sample_sd [0, 0, 0, 0, 0, 0, 0, 0, 9] = 3"
  by (simp_all add: sample_sd_def mean_def sqrt_nine)

lemma single_distinct: "distinct xs \<Longrightarrow> set xs = {a} \<Longrightarrow> xs = [a]"
  by (cases xs; cases "tl xs") auto

lemma quiet_days_totals:
  "non_null (map snd (revenue_by Day quiet_days)) = [0, 0, 0, 0, 0, 0, 0, 0, 9]"
  by (simp add: quiet_days_daily non_null_def List.map_filter_simps)

lemma quiet_days_only:
  assumes "(d, Some x) \<in> set (revenue_by Day quiet_days)" and "2 < \<bar>(x - 1) / 3\<bar>"
  shows "d = date 2024 1 9 \<and> x = 9"
proof -
  from assms(1) consider "x = 0" | "d = date 2024 1 9 \<and> x = 9"
    unfolding quiet_days_daily by auto
  then show ?thesis
  proof cases
    case 1
    with assms(2) show ?thesis by simp
  next
    case 2
    then show ?thesis .
  qed
qed

lemma quiet_days_ninth: "(date 2024 1 9, Some 9) \<in> set (revenue_by Day quiet_days)"
  by (simp add: quiet_days_daily)

theorem getAnomalies_zscore_witness:
  "getAnomalies quiet_days =
     [\<lparr>a_date = date 2024 1 9, a_revenue = Some 9, a_zscore = Some (8 / 3)\<rparr>]"
proof -
  let ?a = "\<lparr>a_date = date 2024 1 9, a_revenue = Some 9, a_zscore = Some (8 / 3)\<rparr>"
  let ?out = "getAnomalies quiet_days"
  note all = getAnomalies_zscore [of quiet_days, unfolded Let_def quiet_days_totals quiet_days_stats]
  from all have mem: "a \<in> set ?out \<longleftrightarrow>
      (\<exists>d x. (d, Some x) \<in> set (revenue_by Day quiet_days) \<and>
         2 \<le> length [0, 0, 0, 0, 0, 0, 0, 0, 9 :: real] \<and> (3 :: real) \<noteq> 0 \<and>
         2 < \<bar>(x - 1) / 3\<bar> \<and>
         a = \<lparr>a_date = d, a_revenue = Some x, a_zscore = Some ((x - 1) / 3)\<rparr>)" for a
    by (elim conjE allE [of _ a])
  from all have dist: "distinct (map a_date ?out)"
    by (elim conjE)
  have "?a \<in> set ?out"
    unfolding mem
    using quiet_days_ninth
    by (intro exI [of _ "date 2024 1 9"] exI [of _ "9 :: real"]) simp
  moreover have "a = ?a" if "a \<in> set ?out" for a
  proof -
    from that [unfolded mem] obtain d x
      where h1: "(d, Some x) \<in> set (revenue_by Day quiet_days)" and h2: "2 < \<bar>(x - 1) / 3\<bar>"
        and a: "a = \<lparr>a_date = d, a_revenue = Some x, a_zscore = Some ((x - 1) / 3)\<rparr>"
      by blast
    from quiet_days_only [OF h1 h2] have "d = date 2024 1 9" and "x = 9" by blast+
    with a show ?thesis by simp
  qed
  ultimately have "set ?out = {?a}" by blast
  moreover from dist have "distinct ?out" by (simp add: distinct_map)
  ultimately show ?thesis by (rule single_distinct [rotated])
qed

section \<open>Growth of the summary\<close>

text \<open>
  When no row is dated after the current month, the month-over-month growth that
  \<open>getSummary\<close> reports is the growth between the two calendar months: the sums with
  \<open>ELSE 0\<close> of the growth query and the sums over the days of a calendar month differ
  only where one is NULL and the other 0, which the growth formula does not tell apart.
\<close>

lemma growth_pct_or_zero:
  "growth_pct this prev =
     (if or_zero prev = 0 then None else Some ((or_zero this - or_zero prev) / or_zero prev))"
  by (simp add: growth_pct_def or_zero_def split: option.splits)

lemma or_zero_sql_sum: "or_zero (sql_sum vs) = sum_list (non_null vs)"
  by (simp add: or_zero_def sql_sum_def)

lemma non_null_simps:
  "non_null [] = []"
  "non_null (None # vs) = non_null vs"
  "non_null (Some x # vs) = x # non_null vs"
  by (simp_all add: non_null_def List.map_filter_simps)

lemma bucket_sum_list:
  "\<forall>(d, v) \<in> set days. P d = Q d \<Longrightarrow>
     sum_list (non_null (map (\<lambda>(d, v). if P d then v else Some 0) days)) =
     sum_list (non_null (map snd (filter (\<lambda>(d, v). Q d) days)))"
proof (induction days)
  case Nil
  then show ?case by simp
next
  case (Cons p days)
  obtain d v where p: "p = (d, v)" by (cases p)
  from Cons.prems have "P d = Q d" and "\<forall>(d, v) \<in> set days. P d = Q d"
    by (simp_all add: p)
  with Cons.IH show ?case
    by (cases v) (simp_all add: p non_null_simps)
qed

lemma bucket_sum:
  assumes "\<forall>(d, v) \<in> set days. P d = Q d"
  shows "or_zero (sql_sum (map (\<lambda>(d, v). if P d then v else Some 0) days)) =
         or_zero (sql_sum (map snd (filter (\<lambda>(d, v). Q d) days)))"
  unfolding or_zero_sql_sum by (rule bucket_sum_list [OF assms])

lemma this_month_bucket:
  assumes "valid_date d" and "ts_time d = 0"
    and "\<not> ts_less (date_trunc Month today) (date_trunc Month d)"
  shows "ts_le (date_trunc Month today) d \<longleftrightarrow> date_trunc Month d = date_trunc Month today"
  using assms by (cases d; cases today) (auto simp: valid_date_def ts_le_def ts_less_def)

lemma prev_month_bucket:
  assumes "valid_date d" and "ts_time d = 0" and "1 \<le> ts_month today" and "ts_month today \<le> 12"
  shows "ts_le (minus_month (date_trunc Month today)) d \<and> ts_less d (date_trunc Month today) \<longleftrightarrow>
         date_trunc Month d = minus_month (date_trunc Month today)"
  using assms
  by (cases d; cases today) (auto simp: valid_date_def ts_le_def ts_less_def minus_month_def)


lemma day_bucket_valid:
  assumes "(d, v) \<in> set (revenue_by Day rel)"
    and "\<forall>r \<in> set rel. \<forall>t. c_ts r = Some t \<longrightarrow>
           valid_date t \<and> \<not> ts_less (date_trunc Month today) (date_trunc Month t)"
  shows "valid_date d \<and> ts_time d = 0 \<and>
         \<not> ts_less (date_trunc Month today) (date_trunc Month d)"
proof -
  from assms(1) obtain r where r: "r \<in> set rel" "map_option (date_trunc Day) (c_ts r) = Some d"
    unfolding revenue_by_member by blast
  then obtain t where t: "c_ts r = Some t" "d = date_trunc Day t" by auto
  with assms(2) r(1) have "valid_date t"
    "\<not> ts_less (date_trunc Month today) (date_trunc Month t)" by blast+
  with t(2) show ?thesis by (simp add: valid_date_def)
qed

lemma getSummary_mom_calendar:
  assumes "1 \<le> ts_month today" and "ts_month today \<le> 12"
    and rows: "\<forall>r \<in> set rel. \<forall>t. c_ts r = Some t \<longrightarrow>
           valid_date t \<and> \<not> ts_less (date_trunc Month today) (date_trunc Month t)"
    and has: "hasDate (getSummary today rel)"
  shows "momGrowthPct (getSummary today rel) = calendar_mom today rel"
proof -
  let ?days = "revenue_by Day rel"
  let ?m0 = "date_trunc Month today"
  have cur: "\<forall>(d, v) \<in> set ?days. ts_le ?m0 d = (date_trunc Month d = ?m0)"
  proof (clarify)
    fix d v assume "(d, v) \<in> set ?days"
    from day_bucket_valid [OF this rows] this_month_bucket [of d today]
    show "ts_le ?m0 d = (date_trunc Month d = ?m0)" by blast
  qed
  have prev: "\<forall>(d, v) \<in> set ?days.
      (ts_le (minus_month ?m0) d \<and> ts_less d ?m0) = (date_trunc Month d = minus_month ?m0)"
  proof (clarify)
    fix d v assume "(d, v) \<in> set ?days"
    from day_bucket_valid [OF this rows] prev_month_bucket [of d today] assms(1,2)
    show "(ts_le (minus_month ?m0) d \<and> ts_less d ?m0) = (date_trunc Month d = minus_month ?m0)"
      by blast
  qed
  have t: "or_zero (this_month (growth_query today rel)) = or_zero (month_revenue ?m0 rel)"
    unfolding growth_query_def Let_def month_revenue_def
    using bucket_sum [OF cur] by simp
  have p: "or_zero (prev_month (growth_query today rel)) =
           or_zero (month_revenue (minus_month ?m0) rel)"
    unfolding growth_query_def Let_def month_revenue_def
    using bucket_sum [OF prev] by simp
  from has have "momGrowthPct (getSummary today rel) =
      growth_pct (this_month (growth_query today rel)) (prev_month (growth_query today rel))"
    by (simp add: getSummary_def Let_def)
  then show ?thesis
    unfolding calendar_mom_def growth_pct_or_zero t p .
qed

subsection \<open>Rows dated after the current month\<close>

text \<open>
  C6. \<open>this_month\<close> of the growth query adds up every day on or after the first day of
  the current month; unlike \<open>prev_month\<close> it has no upper bound. On 2026-11-03, with
  100 on 2026-10-10 and 50 on 2027-01-05, \<open>getSummary\<close> reports a month-over-month
  growth of -1/2, where the calendar month of November 2026 has no revenue and the
  growth over the calendar months is -1.
\<close>

theorem getSummary_future_rows:
  "momGrowthPct (getSummary (date 2026 11 3) preorders) = Some (- 1 / 2) \<and>
   month_revenue (date 2026 11 1) preorders = None \<and>
   calendar_mom (date 2026 11 3) preorders = Some (- 1)"
proof -
  have daily: "revenue_by Day preorders = [(date 2026 10 10, Some 100), (date 2027 1 5, Some 50)]"
    by (simp add: revenue_by_def group_by_def stamped_def List.map_filter_simps preorders_def
        sale_on_def date_def sql_sum_def non_null_def)
  have g: "this_month (growth_query (date 2026 11 3) preorders) = Some 50"
    "prev_month (growth_query (date 2026 11 3) preorders) = Some 100"
    by (simp_all add: growth_query_def daily Let_def date_def ts_le_def ts_less_def minus_month_def
        sql_sum_def non_null_def List.map_filter_simps)
  have has: "ts_min (non_null (map c_ts preorders)) \<noteq> None"
    by (simp add: preorders_def sale_on_def non_null_def List.map_filter_simps)
  have a: "momGrowthPct (getSummary (date 2026 11 3) preorders) = Some (- 1 / 2)"
    using has by (simp add: getSummary_def Let_def g growth_pct_def)
  have b: "month_revenue (date 2026 11 1) preorders = None"
    by (simp add: month_revenue_def daily date_def sql_sum_def non_null_def List.map_filter_simps)
  have c: "month_revenue (date 2026 10 1) preorders = Some 100"
    by (simp add: month_revenue_def daily date_def sql_sum_def non_null_def List.map_filter_simps)
  have d: "date_trunc Month (date 2026 11 3) = date 2026 11 1"
    "minus_month (date 2026 11 1) = date 2026 10 1"
    by (simp_all add: date_def minus_month_def)
  have "calendar_mom (date 2026 11 3) preorders = Some (- 1)"
    unfolding calendar_mom_def d b c by (simp add: growth_pct_def)
  with a b show ?thesis by simp
qed

end
